theory Spec2Isabelle
  imports Complex_Main
begin

section \<open>Python floats and errors\<close>

text \<open>
  The engine computes on Python floats. A float is modelled as a finite real number or one
  of the three special values that the source tests for with \<^verbatim>\<open>math.isfinite\<close>. Arithmetic
  on finite values is taken to be exact: rounding and overflow of finite operands are
  not modelled, so a special value only arises from a special operand.
\<close>

datatype pyfloat = Fin real | PInf | NInf | NaN

text \<open>
  Every \<^verbatim>\<open>raise ValueError(msg)\<close> of the source is the value \<open>ValueError msg\<close>, and a
  float division by zero raises \<^verbatim>\<open>ZeroDivisionError\<close>.
\<close>

datatype error = ValueError string | ZeroDivisionError

text \<open>The two messages that end in a quotation mark.\<close>

definition side_message :: string where
  "side_message = ''side must be 'yes' or 'no'' @ [CHR 0x27]"

definition outcome_message :: string where
  "outcome_message = ''outcome must be 'yes' or 'no'' @ [CHR 0x27]"

definition ebind :: "error + 'a \<Rightarrow> ('a \<Rightarrow> error + 'b) \<Rightarrow> error + 'b" where
  "ebind m f = (case m of Inl e \<Rightarrow> Inl e | Inr v \<Rightarrow> f v)"

fun isfinite :: "pyfloat \<Rightarrow> bool" where
  "isfinite (Fin x) = True"
| "isfinite PInf = False"
| "isfinite NInf = False"
| "isfinite NaN = False"

text \<open>\<^verbatim>\<open>a < b\<close> on floats: every comparison with NaN is false.\<close>

fun pf_less :: "pyfloat \<Rightarrow> pyfloat \<Rightarrow> bool" where
  "pf_less (Fin x) (Fin y) = (x < y)"
| "pf_less (Fin x) PInf = True"
| "pf_less (Fin x) NInf = False"
| "pf_less (Fin x) NaN = False"
| "pf_less PInf b = False"
| "pf_less NInf (Fin y) = True"
| "pf_less NInf PInf = True"
| "pf_less NInf NInf = False"
| "pf_less NInf NaN = False"
| "pf_less NaN b = False"

text \<open>\<^verbatim>\<open>a <= b\<close> on floats.\<close>

fun pf_le :: "pyfloat \<Rightarrow> pyfloat \<Rightarrow> bool" where
  "pf_le (Fin x) (Fin y) = (x \<le> y)"
| "pf_le (Fin x) PInf = True"
| "pf_le (Fin x) NInf = False"
| "pf_le (Fin x) NaN = False"
| "pf_le PInf PInf = True"
| "pf_le PInf b = False"
| "pf_le NInf NaN = False"
| "pf_le NInf b = True"
| "pf_le NaN b = False"

text \<open>
  The builtin \<^verbatim>\<open>max(a, b)\<close> keeps its first argument unless the second compares
  greater, so \<^verbatim>\<open>max(nan, 1.0)\<close> is NaN and \<^verbatim>\<open>max(1.0, nan)\<close> is 1.0.
\<close>

definition py_max :: "pyfloat \<Rightarrow> pyfloat \<Rightarrow> pyfloat" where
  "py_max a b = (if pf_less a b then b else a)"

fun pf_neg :: "pyfloat \<Rightarrow> pyfloat" where
  "pf_neg (Fin x) = Fin (- x)"
| "pf_neg PInf = NInf"
| "pf_neg NInf = PInf"
| "pf_neg NaN = NaN"

fun pf_add :: "pyfloat \<Rightarrow> pyfloat \<Rightarrow> pyfloat" where
  "pf_add (Fin x) (Fin y) = Fin (x + y)"
| "pf_add NaN b = NaN"
| "pf_add a NaN = NaN"
| "pf_add PInf NInf = NaN"
| "pf_add NInf PInf = NaN"
| "pf_add PInf b = PInf"
| "pf_add a PInf = PInf"
| "pf_add NInf b = NInf"
| "pf_add a NInf = NInf"

definition pf_sub :: "pyfloat \<Rightarrow> pyfloat \<Rightarrow> pyfloat" where
  "pf_sub a b = pf_add a (pf_neg b)"

text \<open>The sign of a float as seen by a product or quotient with an infinity.\<close>

fun pf_mul :: "pyfloat \<Rightarrow> pyfloat \<Rightarrow> pyfloat" where
  "pf_mul (Fin x) (Fin y) = Fin (x * y)"
| "pf_mul NaN b = NaN"
| "pf_mul a NaN = NaN"
| "pf_mul (Fin x) PInf = (if x = 0 then NaN else if 0 < x then PInf else NInf)"
| "pf_mul (Fin x) NInf = (if x = 0 then NaN else if 0 < x then NInf else PInf)"
| "pf_mul PInf (Fin y) = (if y = 0 then NaN else if 0 < y then PInf else NInf)"
| "pf_mul NInf (Fin y) = (if y = 0 then NaN else if 0 < y then NInf else PInf)"
| "pf_mul PInf PInf = PInf"
| "pf_mul PInf NInf = NInf"
| "pf_mul NInf PInf = NInf"
| "pf_mul NInf NInf = PInf"

text \<open>
  \<^verbatim>\<open>a / b\<close>: Python raises \<^verbatim>\<open>ZeroDivisionError\<close> for a zero divisor whatever the
  dividend is.
\<close>

fun pf_div :: "pyfloat \<Rightarrow> pyfloat \<Rightarrow> error + pyfloat" where
  "pf_div a (Fin y) =
     (if y = 0 then Inl ZeroDivisionError
      else case a of
        Fin x \<Rightarrow> Inr (Fin (x / y))
      | PInf \<Rightarrow> Inr (if 0 < y then PInf else NInf)
      | NInf \<Rightarrow> Inr (if 0 < y then NInf else PInf)
      | NaN \<Rightarrow> Inr NaN)"
| "pf_div a NaN = Inr NaN"
| "pf_div (Fin x) b = Inr (Fin 0)"
| "pf_div a b = Inr NaN"

text \<open>\<^verbatim>\<open>math.exp\<close> (the overflow of a large finite argument is not modelled).\<close>

fun pf_exp :: "pyfloat \<Rightarrow> pyfloat" where
  "pf_exp (Fin x) = Fin (exp x)"
| "pf_exp PInf = PInf"
| "pf_exp NInf = Fin 0"
| "pf_exp NaN = NaN"

text \<open>\<^verbatim>\<open>math.log\<close> raises \<^verbatim>\<open>ValueError("math domain error")\<close> outside its domain.\<close>

fun pf_log :: "pyfloat \<Rightarrow> error + pyfloat" where
  "pf_log (Fin x) = (if x \<le> 0 then Inl (ValueError ''math domain error'') else Inr (Fin (ln x)))"
| "pf_log PInf = Inr PInf"
| "pf_log NInf = Inl (ValueError ''math domain error'')"
| "pf_log NaN = Inr NaN"

section \<open>Pricing kernel\<close>

text \<open>
  \<^verbatim>\<open>_stable_logsumexp(a, b_)\<close>: the maximum \<open>m\<close> is taken first; a non-finite \<open>m\<close> makes
  the function return \<^verbatim>\<open>float("inf")\<close>.
\<close>

definition stable_logsumexp :: "pyfloat \<Rightarrow> pyfloat \<Rightarrow> error + pyfloat" where
  "stable_logsumexp a b' =
     (let m = py_max a b' in
      if \<not> isfinite m then Inr PInf
      else ebind (pf_log (pf_add (pf_exp (pf_sub a m)) (pf_exp (pf_sub b' m))))
             (\<lambda>l. Inr (pf_add m l)))"

text \<open>\<^verbatim>\<open>lmsr_cost(b, q_yes, q_no, dq, side)\<close>: every side other than "yes" is priced as NO.\<close>

definition lmsr_cost :: "pyfloat \<Rightarrow> pyfloat \<Rightarrow> pyfloat \<Rightarrow> pyfloat \<Rightarrow> string \<Rightarrow> error + pyfloat" where
  "lmsr_cost b q_yes q_no dq side =
     ebind (pf_div q_yes b) (\<lambda>a0.
     ebind (pf_div q_no b) (\<lambda>b0.
     ebind (stable_logsumexp a0 b0) (\<lambda>l0.
     let c_old = pf_mul b l0 in
     ebind (if side = ''yes''
            then ebind (pf_div (pf_add q_yes dq) b) (\<lambda>a1.
                 ebind (pf_div q_no b) (\<lambda>b1. stable_logsumexp a1 b1))
            else ebind (pf_div q_yes b) (\<lambda>a1.
                 ebind (pf_div (pf_add q_no dq) b) (\<lambda>b1. stable_logsumexp a1 b1)))
       (\<lambda>l1. let c_new = pf_mul b l1 in Inr (pf_sub c_new c_old)))))"

text \<open>\<^verbatim>\<open>lmsr_yes_price(b, q_yes, q_no)\<close>.\<close>

definition lmsr_yes_price :: "pyfloat \<Rightarrow> pyfloat \<Rightarrow> pyfloat \<Rightarrow> error + pyfloat" where
  "lmsr_yes_price b q_yes q_no =
     ebind (pf_div q_yes b) (\<lambda>a.
     ebind (pf_div q_no b) (\<lambda>b'.
     let m = py_max a b';
         exp_yes = pf_exp (pf_sub a m);
         exp_no = pf_exp (pf_sub b' m)
     in pf_div exp_yes (pf_add exp_yes exp_no)))"

text \<open>
  \<^verbatim>\<open>_max_int_quantity_for_budget\<close>. The inner function \<^verbatim>\<open>cost_for_qty\<close> prices an integer
  quantity: the cost of buying it, or the payout of selling it.
\<close>

definition cost_for_qty ::
  "pyfloat \<Rightarrow> pyfloat \<Rightarrow> pyfloat \<Rightarrow> string \<Rightarrow> string \<Rightarrow> int \<Rightarrow> error + pyfloat" where
  "cost_for_qty b q_yes q_no side mode qty =
     (if mode = ''buy'' then lmsr_cost b q_yes q_no (Fin (real_of_int qty)) side
      else ebind (lmsr_cost b q_yes q_no (Fin (real_of_int (- qty))) side)
             (\<lambda>c. Inr (pf_neg c)))"

text \<open>The loop test \<^verbatim>\<open>not math.isfinite(val) or val > budget\<close>.\<close>

definition over_budget :: "pyfloat \<Rightarrow> pyfloat \<Rightarrow> bool" where
  "over_budget val budget = (\<not> isfinite val \<or> pf_less budget val)"

text \<open>
  The first loop (\<^verbatim>\<open>while True\<close>) doubles \<open>high\<close> until the price at \<open>high\<close> is over
  budget or \<open>high\<close> has passed \<open>10^9\<close>. As a function of an arbitrary \<open>high\<close> it need not
  return (it would not for \<open>high = 0\<close>), so it is a partial function; the source starts
  it at \<open>low = 0\<close>, \<open>high = 1\<close>, from where it returns (\<open>expand_bound_returns\<close> below).
\<close>

partial_function (option) expand_bound ::
  "(int \<Rightarrow> error + pyfloat) \<Rightarrow> pyfloat \<Rightarrow> int \<Rightarrow> int \<Rightarrow> (error + int \<times> int) option" where
  "expand_bound cf budget low high =
     (case cf high of
        Inl e \<Rightarrow> Some (Inl e)
      | Inr val \<Rightarrow>
          if over_budget val budget then Some (Inr (low, high))
          else if high * 2 > 1000000000 then Some (Inr (high, high * 2))
          else expand_bound cf budget high (high * 2))"

text \<open>The second loop (\<^verbatim>\<open>while low < high\<close>): integer bisection with the upper midpoint.\<close>

function bisect ::
  "(int \<Rightarrow> error + pyfloat) \<Rightarrow> pyfloat \<Rightarrow> int \<Rightarrow> int \<Rightarrow> error + int" where
  "bisect cf budget low high =
     (if low < high then
        (let mid = (low + high + 1) div 2 in
         case cf mid of
           Inl e \<Rightarrow> Inl e
         | Inr val \<Rightarrow>
             if over_budget val budget then bisect cf budget low (mid - 1)
             else bisect cf budget mid high)
      else Inr low)"
  by pat_completeness auto
termination
  by (relation "measure (\<lambda>(cf, budget, low, high). nat (high - low))") auto

definition max_int_quantity_for_budget ::
  "pyfloat \<Rightarrow> pyfloat \<Rightarrow> pyfloat \<Rightarrow> string \<Rightarrow> pyfloat \<Rightarrow> string \<Rightarrow> error + int" where
  "max_int_quantity_for_budget b q_yes q_no side budget mode =
     (if pf_le budget (Fin 0) then Inl (ValueError ''budget must be > 0'')
      else
        case the (expand_bound (cost_for_qty b q_yes q_no side mode) budget 0 1) of
          Inl e \<Rightarrow> Inl e
        | Inr (low, high) \<Rightarrow>
            if low = 0 then Inl (ValueError ''budget insufficient for 1 contract'')
            else bisect (cost_for_qty b q_yes q_no side mode) budget low high)"

section \<open>Persistence model\<close>

text \<open>
  One record per table of \<^verbatim>\<open>database_setup.py\<close>, with the columns the engine reads or
  writes (timestamps and the unused primary keys of the AMM, clearing-house, position and
  ledger tables are left out). Stored floats are finite, so they are reals. A table is the
  list of its rows; \<^verbatim>\<open>select(...).where(...).first()\<close> is the first matching row, and a
  row object that the engine mutates is written back in place.
\<close>

record user_row =
  u_id :: nat
  u_username :: string
  u_points :: real

record market_row =
  m_id :: nat
  m_name :: string
  m_b :: real
  m_amm_points :: real
  m_resolved :: bool
  m_outcome :: "bool option"

record amm_row =
  a_market_id :: nat
  a_points :: real
  a_qYes :: real
  a_qNo :: real

record ch_row =
  c_market_id :: nat
  c_points :: real

record pos_row =
  p_market_id :: nat
  p_user_id :: nat
  p_qYes :: real
  p_qNo :: real

record ledger_row =
  l_market_id :: nat
  l_user_id :: nat
  l_reason :: string
  l_delta :: real
  l_side :: string
  l_amount :: "real option"

record db =
  users :: "user_row list"
  markets :: "market_row list"
  amms :: "amm_row list"
  chs :: "ch_row list"
  positions :: "pos_row list"
  ledger :: "ledger_row list"

definition empty_db :: db where
  "empty_db = \<lparr>users = [], markets = [], amms = [], chs = [], positions = [], ledger = []\<rparr>"

text \<open>Writing a mutated row object back: the first row that matches is replaced.\<close>

fun update_first :: "('a \<Rightarrow> bool) \<Rightarrow> ('a \<Rightarrow> 'a) \<Rightarrow> 'a list \<Rightarrow> 'a list" where
  "update_first P f [] = []"
| "update_first P f (x # xs) = (if P x then f x # xs else x # update_first P f xs)"

text \<open>An autoincrement primary key: one more than the largest key in use.\<close>

definition next_id :: "nat list \<Rightarrow> nat" where
  "next_id ids = Suc (fold max ids 0)"

definition find_user :: "db \<Rightarrow> string \<Rightarrow> user_row option" where
  "find_user st username = find (\<lambda>u. u_username u = username) (users st)"

definition find_market :: "db \<Rightarrow> nat \<Rightarrow> market_row option" where
  "find_market st market_id = find (\<lambda>m. m_id m = market_id) (markets st)"

definition find_amm :: "db \<Rightarrow> nat \<Rightarrow> amm_row option" where
  "find_amm st market_id = find (\<lambda>a. a_market_id a = market_id) (amms st)"

definition find_ch :: "db \<Rightarrow> nat \<Rightarrow> ch_row option" where
  "find_ch st market_id = find (\<lambda>c. c_market_id c = market_id) (chs st)"

definition find_position :: "db \<Rightarrow> nat \<Rightarrow> nat \<Rightarrow> pos_row option" where
  "find_position st user_id market_id =
     find (\<lambda>p. p_user_id p = user_id \<and> p_market_id p = market_id) (positions st)"

text \<open>
  \<^verbatim>\<open>get_or_create_user\<close>. The \<^verbatim>\<open>IntegrityError\<close> branch answers a concurrent insert
  of the same name and has no counterpart in a sequential run.
\<close>

definition get_or_create_user :: "db \<Rightarrow> string \<Rightarrow> real \<Rightarrow> db \<times> user_row" where
  "get_or_create_user st username initial_points =
     (case find_user st username of
        Some user \<Rightarrow> (st, user)
      | None \<Rightarrow>
          let user = \<lparr>u_id = next_id (map u_id (users st)), u_username = username,
                       u_points = initial_points\<rparr>
          in (st\<lparr>users := users st @ [user]\<rparr>, user))"

text \<open>\<^verbatim>\<open>get_market_bundle_for_update\<close>: the join of the market with its AMM and clearing house.\<close>

definition get_market_bundle_for_update ::
  "db \<Rightarrow> nat \<Rightarrow> error + market_row \<times> amm_row \<times> ch_row" where
  "get_market_bundle_for_update st market_id =
     (case (find_market st market_id, find_amm st market_id, find_ch st market_id) of
        (Some m, Some a, Some c) \<Rightarrow> Inr (m, a, c)
      | _ \<Rightarrow> Inl (ValueError ''Market not found or missing AMM/CH rows''))"

definition get_or_create_position_for_update :: "db \<Rightarrow> nat \<Rightarrow> nat \<Rightarrow> db \<times> pos_row" where
  "get_or_create_position_for_update st user_id market_id =
     (case find_position st user_id market_id of
        Some pos \<Rightarrow> (st, pos)
      | None \<Rightarrow>
          let pos = \<lparr>p_market_id = market_id, p_user_id = user_id, p_qYes = 0, p_qNo = 0\<rparr>
          in (st\<lparr>positions := positions st @ [pos]\<rparr>, pos))"

text \<open>
  The row objects of one trade (user, market, AMM, clearing house, position) go back to
  their tables when the session is flushed.
\<close>

definition flush_rows ::
  "db \<Rightarrow> user_row \<Rightarrow> market_row \<Rightarrow> amm_row \<Rightarrow> ch_row \<Rightarrow> pos_row \<Rightarrow> db" where
  "flush_rows st db_user db_market amm ch pos =
     st\<lparr>users := update_first (\<lambda>u. u_username u = u_username db_user) (\<lambda>_. db_user) (users st),
        markets := update_first (\<lambda>m. m_id m = m_id db_market) (\<lambda>_. db_market) (markets st),
        amms := update_first (\<lambda>a. a_market_id a = a_market_id amm) (\<lambda>_. amm) (amms st),
        chs := update_first (\<lambda>c. c_market_id c = c_market_id ch) (\<lambda>_. ch) (chs st),
        positions := update_first
          (\<lambda>p. p_user_id p = p_user_id pos \<and> p_market_id p = p_market_id pos) (\<lambda>_. pos)
          (positions st)\<rparr>"

section \<open>Ledger\<close>

text \<open>
  \<^verbatim>\<open>LEDGER_MODE\<close> is read once from the environment and normalised to one of three values.
\<close>

datatype ledger_mode = Off | Light | Full

text \<open>
  \<^verbatim>\<open>system_actors.py\<close>: the two system users are looked up by name and created with 0
  points when absent. \<^verbatim>\<open>_get_system_ids\<close> memoises the pair of ids; user rows are never
  deleted, so the memoised pair is the pair a fresh lookup returns.
\<close>

definition SYSTEM_AMM_USERNAME :: string where
  "SYSTEM_AMM_USERNAME = ''__system_amm__''"

definition SYSTEM_CH_USERNAME :: string where
  "SYSTEM_CH_USERNAME = ''__system_clearing_house__''"

definition get_or_create_system_user_id :: "db \<Rightarrow> string \<Rightarrow> real \<Rightarrow> db \<times> nat" where
  "get_or_create_system_user_id st username pts =
     (case find_user st username of
        Some row \<Rightarrow> (st, u_id row)
      | None \<Rightarrow>
          let row = \<lparr>u_id = next_id (map u_id (users st)), u_username = username,
                      u_points = pts\<rparr>
          in (st\<lparr>users := users st @ [row]\<rparr>, u_id row))"

definition get_system_actor_ids :: "db \<Rightarrow> db \<times> nat \<times> nat" where
  "get_system_actor_ids st =
     (let (st1, amm_id) = get_or_create_system_user_id st SYSTEM_AMM_USERNAME 0;
          (st2, ch_id) = get_or_create_system_user_id st1 SYSTEM_CH_USERNAME 0
      in (st2, amm_id, ch_id))"

definition ledger_add :: "db \<Rightarrow> ledger_row \<Rightarrow> db" where
  "ledger_add st row = st\<lparr>ledger := ledger st @ [row]\<rparr>"

text \<open>
  The ledger block of a trade. For a buy the user row has reason "trade buy" and delta
  \<open>- cost\<close>, the AMM row has reason "trade sell" and delta \<open>cost\<close>, and the collateral
  pair debits \<open>first_id\<close> (the AMM) and credits \<open>second_id\<close> (the clearing house); a
  sell passes the opposite reasons and the opposite pair.
\<close>

definition write_ledger ::
  "ledger_mode \<Rightarrow> db \<Rightarrow> nat \<Rightarrow> nat \<Rightarrow> string \<Rightarrow> string \<Rightarrow> real \<Rightarrow> string \<Rightarrow> real \<Rightarrow> real \<Rightarrow> bool \<Rightarrow> db" where
  "write_ledger mode st market_id user_id user_reason amm_reason user_delta side qty delta is_buy =
     (if mode = Off then st
      else
        let st1 = ledger_add st
              \<lparr>l_market_id = market_id, l_user_id = user_id, l_reason = user_reason,
               l_delta = user_delta, l_side = side, l_amount = Some qty\<rparr>
        in if mode = Full then
             (let (st2, SYSTEM_AMM_USER_ID, SYSTEM_CH_USER_ID) = get_system_actor_ids st1;
                  st3 = ledger_add st2
                    \<lparr>l_market_id = market_id, l_user_id = SYSTEM_AMM_USER_ID,
                     l_reason = amm_reason, l_delta = - user_delta, l_side = side,
                     l_amount = Some qty\<rparr>
              in if delta > 0 then
                   ledger_add
                     (ledger_add st3
                        \<lparr>l_market_id = market_id,
                         l_user_id = (if is_buy then SYSTEM_AMM_USER_ID else SYSTEM_CH_USER_ID),
                         l_reason = ''clearing house'', l_delta = - delta, l_side = ''N/A'',
                         l_amount = None\<rparr>)
                     \<lparr>l_market_id = market_id,
                      l_user_id = (if is_buy then SYSTEM_CH_USER_ID else SYSTEM_AMM_USER_ID),
                      l_reason = ''clearing house'', l_delta = delta, l_side = ''N/A'',
                      l_amount = None\<rparr>
                 else st3)
           else st1)"

section \<open>Trade engine\<close>

text \<open>What a trade returns: the dictionary of the four result fields.\<close>

record trade_out =
  r_new_balance :: real
  r_new_price :: pyfloat
  r_quantity :: real
  r_order_cost :: real

text \<open>\<^verbatim>\<open>budget_points is not None and budget_points > 0\<close>.\<close>

definition budget_given :: "real option \<Rightarrow> bool" where
  "budget_given budget_points = (case budget_points of None \<Rightarrow> False | Some p \<Rightarrow> p > 0)"

text \<open>\<^verbatim>\<open>is_visible is not None and not is_visible(db_market.name, username)\<close>.\<close>

definition hidden :: "(string \<Rightarrow> string \<Rightarrow> bool) option \<Rightarrow> string \<Rightarrow> string \<Rightarrow> bool" where
  "hidden is_visible market_name username =
     (case is_visible of None \<Rightarrow> False | Some vis \<Rightarrow> \<not> vis market_name username)"

text \<open>The collateral block of \<^verbatim>\<open>trade_buy\<close>, on the AMM row after the inventory update.\<close>

definition required_collateral :: "amm_row \<Rightarrow> real" where
  "required_collateral amm =
     (let total_yes = max 0 (- a_qYes amm);
          total_no = max 0 (- a_qNo amm)
      in max total_yes total_no)"

definition buy_collateral :: "amm_row \<Rightarrow> ch_row \<Rightarrow> error + amm_row \<times> ch_row \<times> real" where
  "buy_collateral amm ch =
     (let required = required_collateral amm;
          current = c_points ch;
          delta = required - current
      in if delta > 0 then
           (if a_points amm < delta
            then Inl (ValueError ''AMM lack points for required collateral'')
            else Inr (amm\<lparr>a_points := a_points amm - delta\<rparr>,
                      ch\<lparr>c_points := c_points ch + delta\<rparr>, delta))
         else if delta < - (1 / 10 ^ 9)
           then Inl (ValueError ''clearing house has more points than required after minting'')
         else Inr (amm, ch, delta))"

text \<open>The collateral block of \<^verbatim>\<open>trade_sell\<close>.\<close>

definition sell_collateral :: "amm_row \<Rightarrow> ch_row \<Rightarrow> error + amm_row \<times> ch_row \<times> real" where
  "sell_collateral amm ch =
     (let required = required_collateral amm;
          current = c_points ch;
          delta = current - required
      in if delta > 0 then
           Inr (amm\<lparr>a_points := a_points amm + delta\<rparr>,
                ch\<lparr>c_points := c_points ch - delta\<rparr>, delta)
         else if delta < - (1 / 10 ^ 9)
           then Inl (ValueError ''collateral increased after sell; state inconsistent'')
         else Inr (amm, ch, delta))"

text \<open>The price of the traded side, \<^verbatim>\<open>yes_price2 if side == "yes" else (1 - yes_price2)\<close>.\<close>

definition side_price :: "string \<Rightarrow> pyfloat \<Rightarrow> pyfloat" where
  "side_price side yes_price2 = (if side = ''yes'' then yes_price2 else pf_sub (Fin 1) yes_price2)"

definition trade_buy ::
  "ledger_mode \<Rightarrow> db \<Rightarrow> string \<Rightarrow> nat \<Rightarrow> real \<Rightarrow> string \<Rightarrow> real option \<Rightarrow>
   (string \<Rightarrow> string \<Rightarrow> bool) option \<Rightarrow> error + db \<times> trade_out" where
  "trade_buy mode st username market_id quantity side budget_points is_visible =
     (if side \<noteq> ''yes'' \<and> side \<noteq> ''no'' then Inl (ValueError side_message)
      else if quantity \<le> 0 \<and> \<not> budget_given budget_points
        then Inl (ValueError ''quantity must be > 0'')
      else
        let (st1, db_user) =
              (case find_user st username of
                 Some u \<Rightarrow> (st, u)
               | None \<Rightarrow> get_or_create_user st username 1000)
        in ebind (get_market_bundle_for_update st1 market_id) (\<lambda>(db_market, amm, ch).
           if m_resolved db_market then Inl (ValueError ''Market is settled'')
           else if hidden is_visible (m_name db_market) username
             then Inl (ValueError ''You cannot trade this market'')
           else
             let (st2, pos) = get_or_create_position_for_update st1 (u_id db_user) market_id;
                 b = m_b db_market;
                 q_yes_total = - a_qYes amm;
                 q_no_total = - a_qNo amm
             in ebind (if budget_given budget_points
                       then ebind (max_int_quantity_for_budget (Fin b) (Fin q_yes_total)
                                     (Fin q_no_total) side (Fin (the budget_points)) ''buy'')
                              (\<lambda>q. Inr (real_of_int q))
                       else Inr quantity) (\<lambda>qty.
                ebind (lmsr_cost (Fin b) (Fin q_yes_total) (Fin q_no_total) (Fin qty) side)
                  (\<lambda>cost_f.
                case cost_f of
                  Fin cost \<Rightarrow>
                    if u_points db_user < cost
                    then Inl (ValueError ''not enough points for order'')
                    else
                      let db_user1 = db_user\<lparr>u_points := u_points db_user - cost\<rparr>;
                          amm1 = amm\<lparr>a_points := a_points amm + cost\<rparr>;
                          pos1 = (if side = ''yes'' then pos\<lparr>p_qYes := p_qYes pos + qty\<rparr>
                                  else pos\<lparr>p_qNo := p_qNo pos + qty\<rparr>);
                          amm2 = (if side = ''yes'' then amm1\<lparr>a_qYes := a_qYes amm1 - qty\<rparr>
                                  else amm1\<lparr>a_qNo := a_qNo amm1 - qty\<rparr>)
                      in ebind (buy_collateral amm2 ch) (\<lambda>(amm3, ch1, delta).
                         let db_market1 = db_market\<lparr>m_amm_points := a_points amm3\<rparr>;
                             st3 = flush_rows st2 db_user1 db_market1 amm3 ch1 pos1;
                             st4 = write_ledger mode st3 market_id (u_id db_user) ''trade buy''
                                     ''trade sell'' (- cost) side qty delta True
                         in ebind (lmsr_yes_price (Fin b) (Fin (- a_qYes amm3))
                                     (Fin (- a_qNo amm3))) (\<lambda>yes_price2.
                            Inr (st4, \<lparr>r_new_balance = u_points db_user1,
                                       r_new_price = side_price side yes_price2,
                                       r_quantity = qty, r_order_cost = cost\<rparr>)))
                | _ \<Rightarrow> Inl (ValueError ''pricing overflow'')))))"

definition trade_sell ::
  "ledger_mode \<Rightarrow> db \<Rightarrow> string \<Rightarrow> nat \<Rightarrow> real \<Rightarrow> string \<Rightarrow> real option \<Rightarrow>
   (string \<Rightarrow> string \<Rightarrow> bool) option \<Rightarrow> error + db \<times> trade_out" where
  "trade_sell mode st username market_id quantity side budget_points is_visible =
     (if side \<noteq> ''yes'' \<and> side \<noteq> ''no'' then Inl (ValueError side_message)
      else if quantity \<le> 0 \<and> \<not> budget_given budget_points
        then Inl (ValueError ''quantity must be > 0'')
      else
        case find_user st username of
          None \<Rightarrow> Inl (ValueError ''user not found'')
        | Some db_user \<Rightarrow>
        ebind (get_market_bundle_for_update st market_id) (\<lambda>(db_market, amm, ch).
          if m_resolved db_market then Inl (ValueError ''Market is settled'')
          else if hidden is_visible (m_name db_market) username
            then Inl (ValueError ''You cannot trade this market'')
          else
            case find_position st (u_id db_user) market_id of
              None \<Rightarrow> Inl (ValueError ''no position for this market'')
            | Some pos \<Rightarrow>
            let b = m_b db_market;
                q_yes_total = - a_qYes amm;
                q_no_total = - a_qNo amm
            in ebind (if budget_given budget_points
                      then ebind (max_int_quantity_for_budget (Fin b) (Fin q_yes_total)
                                    (Fin q_no_total) side (Fin (the budget_points)) ''sell'')
                             (\<lambda>q. let available = (if side = ''yes'' then p_qYes pos
                                                   else p_qNo pos)
                                  in Inr (real_of_int (min q \<lfloor>available\<rfloor>)))
                      else Inr quantity) (\<lambda>qty.
               if side = ''yes'' \<and> p_qYes pos < qty
                 then Inl (ValueError ''not enough YES contracts to sell'')
               else if side = ''no'' \<and> p_qNo pos < qty
                 then Inl (ValueError ''not enough NO contracts to sell'')
               else if qty \<le> 0 then Inl (ValueError ''quantity must be > 0'')
               else
                 ebind (lmsr_cost (Fin b) (Fin q_yes_total) (Fin q_no_total) (Fin (- qty)) side)
                   (\<lambda>cost_f.
                 case pf_neg cost_f of
                   Fin payout \<Rightarrow>
                     if a_points amm < payout
                     then Inl (ValueError ''AMM does not have enough points to pay this sell'')
                     else
                       let db_user1 = db_user\<lparr>u_points := u_points db_user + payout\<rparr>;
                           amm1 = amm\<lparr>a_points := a_points amm - payout\<rparr>;
                           pos1 = (if side = ''yes'' then pos\<lparr>p_qYes := p_qYes pos - qty\<rparr>
                                   else pos\<lparr>p_qNo := p_qNo pos - qty\<rparr>);
                           amm2 = (if side = ''yes'' then amm1\<lparr>a_qYes := a_qYes amm1 + qty\<rparr>
                                   else amm1\<lparr>a_qNo := a_qNo amm1 + qty\<rparr>)
                       in ebind (sell_collateral amm2 ch) (\<lambda>(amm3, ch1, delta).
                          let db_market1 = db_market\<lparr>m_amm_points := a_points amm3\<rparr>;
                              st3 = flush_rows st db_user1 db_market1 amm3 ch1 pos1;
                              st4 = write_ledger mode st3 market_id (u_id db_user) ''trade sell''
                                      ''trade buy'' payout side qty delta False
                          in ebind (lmsr_yes_price (Fin b) (Fin (- a_qYes amm3))
                                      (Fin (- a_qNo amm3))) (\<lambda>yes_price2.
                             if \<not> isfinite yes_price2 then Inl (ValueError ''pricing overflow'')
                             else Inr (st4, \<lparr>r_new_balance = u_points db_user1,
                                             r_new_price = side_price side yes_price2,
                                             r_quantity = qty, r_order_cost = payout\<rparr>)))
                 | _ \<Rightarrow> Inl (ValueError ''pricing overflow'')))))"

section \<open>Provisioning and settlement\<close>

text \<open>
  \<^verbatim>\<open>User.__init__\<close>: the row of that name is loaded, or inserted with the given points
  (1000 by default).
\<close>

definition user_init :: "db \<Rightarrow> string \<Rightarrow> real \<Rightarrow> db" where
  "user_init st username pts =
     (case find_user st username of
        Some row \<Rightarrow> st
      | None \<Rightarrow>
          st\<lparr>users := users st @
               [\<lparr>u_id = next_id (map u_id (users st)), u_username = username, u_points = pts\<rparr>]\<rparr>)"

text \<open>\<^verbatim>\<open>float(m.amm_points or 10000)\<close>: a reserve of zero counts as absent.\<close>

definition reserve_or_default :: "real \<Rightarrow> real" where
  "reserve_or_default amm_points = (if amm_points = 0 then 10000 else amm_points)"

text \<open>
  \<^verbatim>\<open>Market.__init__\<close> without a market id: the market of that name is loaded, or inserted
  with its AMM and clearing-house rows; rows missing for an old market are added.
\<close>

definition market_init :: "db \<Rightarrow> string \<Rightarrow> real \<Rightarrow> db \<times> nat" where
  "market_init st name b =
     (let (st1, m) =
            (case find (\<lambda>m. m_name m = name) (markets st) of
               Some m \<Rightarrow> (st, m)
             | None \<Rightarrow>
                 let m = \<lparr>m_id = next_id (map m_id (markets st)), m_name = name, m_b = b,
                          m_amm_points = 10000, m_resolved = False, m_outcome = None\<rparr>
                 in (st\<lparr>markets := markets st @ [m],
                        amms := amms st @
                          [\<lparr>a_market_id = m_id m,
                            a_points = reserve_or_default (m_amm_points m), a_qYes = 0,
                            a_qNo = 0\<rparr>],
                        chs := chs st @ [\<lparr>c_market_id = m_id m, c_points = 0\<rparr>]\<rparr>, m));
          st2 = (case find_amm st1 (m_id m) of
                   Some amm \<Rightarrow> st1
                 | None \<Rightarrow>
                     st1\<lparr>amms := amms st1 @
                          [\<lparr>a_market_id = m_id m,
                            a_points = reserve_or_default (m_amm_points m), a_qYes = 0,
                            a_qNo = 0\<rparr>]\<rparr>);
          st3 = (case find_ch st2 (m_id m) of
                   Some ch \<Rightarrow> st2
                 | None \<Rightarrow> st2\<lparr>chs := chs st2 @ [\<lparr>c_market_id = m_id m, c_points = 0\<rparr>]\<rparr>)
      in (st3, m_id m))"

text \<open>
  The payout loop of \<^verbatim>\<open>Market.settlement\<close> over the positions of the market: a position
  whose user row is missing is skipped, and only a positive count is credited.
\<close>

fun pay_winners :: "string \<Rightarrow> pos_row list \<Rightarrow> user_row list \<Rightarrow> user_row list" where
  "pay_winners outcome [] us = us"
| "pay_winners outcome (pos # ps) us =
     (case find (\<lambda>u. u_id u = p_user_id pos) us of
        None \<Rightarrow> pay_winners outcome ps us
      | Some user \<Rightarrow>
          let payout = (if outcome = ''yes'' then p_qYes pos else p_qNo pos)
          in if payout > 0
             then pay_winners outcome ps
                    (update_first (\<lambda>u. u_id u = p_user_id pos)
                       (\<lambda>u. u\<lparr>u_points := u_points u + payout\<rparr>) us)
             else pay_winners outcome ps us)"

definition settlement :: "db \<Rightarrow> nat \<Rightarrow> string \<Rightarrow> error + db" where
  "settlement st market_id outcome =
     (if outcome \<noteq> ''yes'' \<and> outcome \<noteq> ''no''
      then Inl (ValueError outcome_message)
      else
        case find_market st market_id of
          None \<Rightarrow> Inl (ValueError ''Market not found'')
        | Some m \<Rightarrow>
            if m_resolved m then Inl (ValueError ''Market already settled'')
            else
              let positions_of_market = filter (\<lambda>p. p_market_id p = market_id) (positions st)
              in Inr (st\<lparr>markets := update_first (\<lambda>m. m_id m = market_id)
                               (\<lambda>m. m\<lparr>m_resolved := True, m_outcome := Some (outcome = ''yes'')\<rparr>)
                               (markets st),
                         users := pay_winners outcome positions_of_market (users st)\<rparr>))"

section \<open>Reference functions over the reals\<close>

text \<open>
  The closed forms that the kernel is compared with: the log-sum-exp, the LMSR cost
  potential \<open>C(q_yes, q_no) = b * lse(q_yes / b, q_no / b)\<close> and the cost of changing one
  side by \<open>dq\<close>.
\<close>

definition lse :: "real \<Rightarrow> real \<Rightarrow> real" where
  "lse x y = ln (exp x + exp y)"

definition potential :: "real \<Rightarrow> real \<Rightarrow> real \<Rightarrow> real" where
  "potential b q_yes q_no = b * lse (q_yes / b) (q_no / b)"

definition cost_real :: "real \<Rightarrow> real \<Rightarrow> real \<Rightarrow> real \<Rightarrow> string \<Rightarrow> real" where
  "cost_real b q_yes q_no dq side =
     (if side = ''yes'' then potential b (q_yes + dq) q_no - potential b q_yes q_no
      else potential b q_yes (q_no + dq) - potential b q_yes q_no)"

definition price_real :: "real \<Rightarrow> real \<Rightarrow> real \<Rightarrow> string \<Rightarrow> string \<Rightarrow> int \<Rightarrow> real" where
  "price_real b q_yes q_no side mode qty =
     (if mode = ''buy'' then cost_real b q_yes q_no (real_of_int qty) side
      else - cost_real b q_yes q_no (- real_of_int qty) side)"

text \<open>
  A quantity is affordable when the loops of the budget inversion accept it: pricing it
  raises nothing and the price is not over budget.
\<close>

definition affordable :: "(int \<Rightarrow> error + pyfloat) \<Rightarrow> pyfloat \<Rightarrow> int \<Rightarrow> bool" where
  "affordable cf budget q =
     (case cf q of Inl e \<Rightarrow> False | Inr val \<Rightarrow> \<not> over_budget val budget)"

text \<open>
  What the doubling loop hands to the bisection when it is entered with \<open>low\<close> and
  \<open>high\<close>: either the first test failed, or \<open>l\<close> is affordable and \<open>h\<close> is the first
  doubled bound that is not, or \<open>h\<close> is the capped bound \<open>2^30\<close>.
\<close>

definition bracket ::
  "(int \<Rightarrow> error + pyfloat) \<Rightarrow> pyfloat \<Rightarrow> int \<Rightarrow> int \<Rightarrow> int \<Rightarrow> int \<Rightarrow> bool" where
  "bracket cf budget low high l h =
     ((l = low \<and> h = high \<and> \<not> affordable cf budget high) \<or>
      (affordable cf budget l \<and> high \<le> l \<and> l < h \<and> h \<le> 2 ^ 30 \<and>
       (\<not> affordable cf budget h \<or> h = 2 ^ 30)))"

section \<open>Requests and invariants\<close>


text \<open>
  One request against the committed database. A trade or settlement that raises is
  rolled back (\<^verbatim>\<open>session.rollback()\<close> in \<^verbatim>\<open>main.py\<close>, or the session closed without
  a commit), so the database stays as it was.
\<close>

datatype op =
    Buy string nat real string "real option" "(string \<Rightarrow> string \<Rightarrow> bool) option"
  | Sell string nat real string "real option" "(string \<Rightarrow> string \<Rightarrow> bool) option"
  | Settle nat string
  | NewMarket string real
  | NewUser string real

fun step :: "ledger_mode \<Rightarrow> db \<Rightarrow> op \<Rightarrow> db" where
  "step mode st (Buy username market_id quantity side budget_points is_visible) =
     (case trade_buy mode st username market_id quantity side budget_points is_visible of
        Inl e \<Rightarrow> st
      | Inr (st', out) \<Rightarrow> st')"
| "step mode st (Sell username market_id quantity side budget_points is_visible) =
     (case trade_sell mode st username market_id quantity side budget_points is_visible of
        Inl e \<Rightarrow> st
      | Inr (st', out) \<Rightarrow> st')"
| "step mode st (Settle market_id outcome) =
     (case settlement st market_id outcome of Inl e \<Rightarrow> st | Inr st' \<Rightarrow> st')"
| "step mode st (NewMarket name b) = fst (market_init st name b)"
| "step mode st (NewUser username pts) = user_init st username pts"

definition run :: "ledger_mode \<Rightarrow> db \<Rightarrow> op list \<Rightarrow> db" where
  "run mode st ops = foldl (step mode) st ops"


section \<open>Scenarios\<close>

text \<open>
  The databases of the end-to-end scenarios: one market with \<open>b = 20\<close>, an AMM reserve of
  10000 and an empty clearing house; user A with 1000 points.
\<close>

definition market_db :: db where
  "market_db =
     \<lparr>users = [],
      markets = [\<lparr>m_id = 1, m_name = ''rain'', m_b = 20, m_amm_points = 10000,
                  m_resolved = False, m_outcome = None\<rparr>],
      amms = [\<lparr>a_market_id = 1, a_points = 10000, a_qYes = 0, a_qNo = 0\<rparr>],
      chs = [\<lparr>c_market_id = 1, c_points = 0\<rparr>],
      positions = [], ledger = []\<rparr>"

definition fresh_db :: db where
  "fresh_db = market_db\<lparr>users := [\<lparr>u_id = 1, u_username = ''A'', u_points = 1000\<rparr>]\<rparr>"

text \<open>The same market after it was settled at YES.\<close>

definition settled_db :: db where
  "settled_db =
     fresh_db\<lparr>markets := [\<lparr>m_id = 1, m_name = ''rain'', m_b = 20, m_amm_points = 10000,
                             m_resolved = True, m_outcome = Some True\<rparr>]\<rparr>"

text \<open>The database after A bought \<open>q\<close> YES contracts on \<open>fresh_db\<close>.\<close>

definition bought_db :: "real \<Rightarrow> db" where
  "bought_db q =
     (let c = cost_real 20 0 0 q ''yes'' in
      \<lparr>users = [\<lparr>u_id = 1, u_username = ''A'', u_points = 1000 - c\<rparr>],
       markets = [\<lparr>m_id = 1, m_name = ''rain'', m_b = 20, m_amm_points = 10000 + c - q,
                   m_resolved = False, m_outcome = None\<rparr>],
       amms = [\<lparr>a_market_id = 1, a_points = 10000 + c - q, a_qYes = - q, a_qNo = 0\<rparr>],
       chs = [\<lparr>c_market_id = 1, c_points = q\<rparr>],
       positions = [\<lparr>p_market_id = 1, p_user_id = 1, p_qYes = q, p_qNo = 0\<rparr>],
       ledger = []\<rparr>)"






text \<open>
  All contract counts of the database are integers; a request is integral when it is
  budget-driven or carries an integer quantity.
\<close>

definition counts_integral :: "db \<Rightarrow> bool" where
  "counts_integral st =
     ((\<forall>p \<in> set (positions st). p_qYes p \<in> \<int> \<and> p_qNo p \<in> \<int>) \<and>
      (\<forall>a \<in> set (amms st). a_qYes a \<in> \<int> \<and> a_qNo a \<in> \<int>))"

fun integral_request :: "op \<Rightarrow> bool" where
  "integral_request (Buy username market_id quantity side budget_points is_visible) =
     (budget_given budget_points \<or> quantity \<in> \<int>)"
| "integral_request (Sell username market_id quantity side budget_points is_visible) =
     (budget_given budget_points \<or> quantity \<in> \<int>)"
| "integral_request request = True"

text \<open>The count that settlement credits for a position: the count of the winning side.\<close>

definition winning_count :: "string \<Rightarrow> pos_row \<Rightarrow> real" where
  "winning_count outcome pos = (if outcome = ''yes'' then p_qYes pos else p_qNo pos)"

text \<open>
  What the payout loop credits to a user id over a list of positions: the positive winning
  counts of the positions of that user.
\<close>

definition credit :: "string \<Rightarrow> pos_row list \<Rightarrow> nat \<Rightarrow> real" where
  "credit outcome ps user_id =
     sum_list (map (\<lambda>p. max 0 (winning_count outcome p)) (filter (\<lambda>p. p_user_id p = user_id) ps))"

text \<open>
  The constraints of the schema that settlement relies on: the primary key of the user
  table, the unique constraint on (market, user) of the position table, and position
  counts that are never negative.
\<close>

definition schema_ok :: "db \<Rightarrow> bool" where
  "schema_ok st =
     (distinct (map u_id (users st)) \<and>
      distinct (map (\<lambda>p. (p_user_id p, p_market_id p)) (positions st)) \<and>
      (\<forall>p \<in> set (positions st). 0 \<le> p_qYes p \<and> 0 \<le> p_qNo p))"

text \<open>Scenario S5: A holds 5 YES and B holds 3 YES on the market; C holds nothing.\<close>

definition holders_db :: db where
  "holders_db =
     \<lparr>users = [\<lparr>u_id = 1, u_username = ''A'', u_points = 997\<rparr>,
               \<lparr>u_id = 2, u_username = ''B'', u_points = 998\<rparr>,
               \<lparr>u_id = 3, u_username = ''C'', u_points = 1000\<rparr>],
      markets = [\<lparr>m_id = 1, m_name = ''rain'', m_b = 20, m_amm_points = 9997,
                  m_resolved = False, m_outcome = None\<rparr>],
      amms = [\<lparr>a_market_id = 1, a_points = 9997, a_qYes = - 8, a_qNo = 0\<rparr>],
      chs = [\<lparr>c_market_id = 1, c_points = 8\<rparr>],
      positions = [\<lparr>p_market_id = 1, p_user_id = 1, p_qYes = 5, p_qNo = 0\<rparr>,
                   \<lparr>p_market_id = 1, p_user_id = 2, p_qYes = 3, p_qNo = 0\<rparr>],
      ledger = []\<rparr>"

section \<open>Properties of the pricing kernel\<close>

lemma ebind_Inl [simp]: "ebind (Inl e) f = Inl e"
  by (simp add: ebind_def)

lemma ebind_Inr [simp]: "ebind (Inr v) f = f v"
  by (simp add: ebind_def)

lemma stable_form_eq_lse:
  "max x y + ln (exp (x - max x y) + exp (y - max x y)) = lse x y"
proof -
  define m where "m = max x y"
  have pos: "0 < exp x + exp y" by (simp add: add_pos_pos)
  have "exp (x - m) + exp (y - m) = (exp x + exp y) / exp m"
    by (simp add: exp_diff add_divide_distrib)
  then have "ln (exp (x - m) + exp (y - m)) = ln (exp x + exp y) - m"
    using pos by (simp add: ln_div)
  then show ?thesis by (simp add: lse_def m_def)
qed

lemma stable_logsumexp_Fin:
  "stable_logsumexp (Fin x) (Fin y) =
     Inr (Fin (max x y + ln (exp (x - max x y) + exp (y - max x y))))"
proof -
  have pos: "\<not> exp (x - max x y) + exp (y - max x y) \<le> 0"
    by (simp add: not_le add_pos_pos)
  show ?thesis
  proof (cases "x < y")
    case True
    then show ?thesis using pos
      by (simp add: stable_logsumexp_def py_max_def pf_sub_def max_def)
  next
    case False
    then show ?thesis using pos
      by (simp add: stable_logsumexp_def py_max_def pf_sub_def max_def)
  qed
qed

lemma stable_logsumexp_nonfinite:
  "\<not> isfinite (py_max a b) \<Longrightarrow> stable_logsumexp a b = Inr PInf"
  by (simp add: stable_logsumexp_def)

lemma stable_logsumexp_never_raises: "stable_logsumexp a b \<noteq> Inl e"
proof (cases a; cases b)
  fix x y assume "a = Fin x" "b = Fin y"
  then show ?thesis by (simp add: stable_logsumexp_Fin)
qed (auto simp: stable_logsumexp_def py_max_def pf_sub_def)

text \<open>
  C8 (amended). When the maximum \<open>m = max(a, b)\<close> is not finite, the kernel returns
  \<open>+infinity\<close>: it returns a value and raises nothing, for any arguments. For finite
  arguments it returns \<open>m + log(exp(a - m) + exp(b - m))\<close>.
\<close>

theorem stable_logsumexp_overflow_is_infinity:
  "(\<not> isfinite (py_max a b) \<longrightarrow> stable_logsumexp a b = Inr PInf) \<and>
   stable_logsumexp a b \<noteq> Inl e \<and>
   stable_logsumexp (Fin x) (Fin y) =
     Inr (Fin (max x y + ln (exp (x - max x y) + exp (y - max x y))))"
  using stable_logsumexp_nonfinite stable_logsumexp_never_raises stable_logsumexp_Fin
  by blast

theorem stable_logsumexp_overflow_is_infinity_witness:
  "\<not> isfinite (py_max NaN (Fin 1)) \<and> stable_logsumexp NaN (Fin 1) = Inr PInf"
  using stable_logsumexp_overflow_is_infinity [of NaN "Fin 1"] by (simp add: py_max_def)

text \<open>
  C8 as stated fails: at \<open>a = +infinity\<close>, \<open>b = 0\<close> the maximum is not finite and the
  kernel returns \<open>+infinity\<close> instead of failing with "pricing overflow".
\<close>

theorem stable_logsumexp_infinity_not_raised:
  "\<not> isfinite (py_max PInf (Fin 0)) \<and>
   stable_logsumexp PInf (Fin 0) = Inr PInf \<and>
   stable_logsumexp PInf (Fin 0) \<noteq> Inl (ValueError ''pricing overflow'')"
  by (simp add: py_max_def stable_logsumexp_def)

lemma lse_commute: "lse x y = lse y x"
  by (simp add: lse_def add.commute)

lemma lse_mono: "x \<le> x' \<Longrightarrow> lse x y \<le> lse x' y"
  by (simp add: lse_def add_pos_pos)

lemma lse_shift: 
  assumes "0 \<le> d" shows "lse (x + d) y \<le> lse x y + d"
proof -
  have pos: "0 < exp x + exp y" by (simp add: add_pos_pos)
  have "exp y \<le> exp d * exp y" using assms by simp
  then have "exp (x + d) + exp y \<le> exp d * (exp x + exp y)"
    by (simp add: exp_add algebra_simps)
  moreover have "0 < exp (x + d) + exp y" by (simp add: add_pos_pos)
  ultimately have "ln (exp (x + d) + exp y) \<le> ln (exp d * (exp x + exp y))"
    by simp
  also have "\<dots> = d + ln (exp x + exp y)"
    using pos by (simp add: ln_mult)
  finally show ?thesis by (simp add: lse_def)
qed

lemma potential_mono_yes:
  assumes "0 < b" "q \<le> q'" shows "potential b q r \<le> potential b q' r"
proof -
  have "q / b \<le> q' / b" using assms by (simp add: divide_right_mono)
  then show ?thesis using assms(1) by (simp add: potential_def lse_mono)
qed

lemma potential_commute: "potential b q r = potential b r q"
  by (simp add: potential_def lse_commute)

lemma potential_shift_yes:
  assumes "0 < b" "0 \<le> d" shows "potential b (q + d) r \<le> potential b q r + d"
proof -
  have "lse (q / b + d / b) (r / b) \<le> lse (q / b) (r / b) + d / b"
    using assms by (intro lse_shift) simp
  then have "b * lse (q / b + d / b) (r / b) \<le> b * (lse (q / b) (r / b) + d / b)"
    using assms(1) by (simp only: mult_le_cancel_left_pos)
  then show ?thesis using assms(1) by (simp add: potential_def add_divide_distrib algebra_simps)
qed

lemma cost_real_mono:
  assumes "0 < b" "d \<le> d'" shows "cost_real b qy qn d side \<le> cost_real b qy qn d' side"
  using assms potential_mono_yes [of b "qy + d" "qy + d'" qn]
    potential_mono_yes [of b "qn + d" "qn + d'" qy]
  by (simp add: cost_real_def potential_commute [of b qy])

lemma cost_real_zero [simp]: "cost_real b qy qn 0 side = 0"
  by (simp add: cost_real_def)

lemma cost_real_nonneg:
  assumes "0 < b" "0 \<le> d" shows "0 \<le> cost_real b qy qn d side"
  using cost_real_mono [OF assms(1), of 0 d qy qn side] assms(2) by simp

lemma cost_real_le_qty:
  assumes "0 < b" "0 \<le> d" shows "cost_real b qy qn d side \<le> d"
  using potential_shift_yes [OF assms, of qy qn] potential_shift_yes [OF assms, of qn qy]
  by (simp add: cost_real_def potential_commute [of b qy])

lemma payout_nonneg:
  assumes "0 < b" "0 \<le> d" shows "0 \<le> - cost_real b qy qn (- d) side"
  using cost_real_mono [OF assms(1), of "- d" 0 qy qn side] assms(2) by simp

lemma payout_le_qty:
  assumes "0 < b" "0 \<le> d" shows "- cost_real b qy qn (- d) side \<le> d"
  using potential_shift_yes [OF assms, of "qy - d" qn] potential_shift_yes [OF assms, of "qn - d" qy]
  by (simp add: cost_real_def potential_commute [of b qy] potential_commute [of b "qy"])

lemma lmsr_cost_Fin:
  "b \<noteq> 0 \<Longrightarrow>
   lmsr_cost (Fin b) (Fin qy) (Fin qn) (Fin dq) side = Inr (Fin (cost_real b qy qn dq side))"
  by (simp add: lmsr_cost_def stable_logsumexp_Fin stable_form_eq_lse pf_sub_def
      cost_real_def potential_def)



section \<open>The budget inversion\<close>

lemma bracket_step:
  "affordable cf budget H \<Longrightarrow> 0 < H \<Longrightarrow> 2 * H \<le> 2 ^ 30 \<Longrightarrow>
   bracket cf budget H (2 * H) l h \<Longrightarrow> bracket cf budget low H l h"
  by (auto simp: bracket_def)

lemma expand_bound_spec:
  assumes tot: "\<And>q. cf q = Inr (g q)"
  shows "k \<le> 29 \<Longrightarrow>
    \<exists>l h. expand_bound cf budget low (2 ^ k) = Some (Inr (l, h)) \<and> bracket cf budget low (2 ^ k) l h"
proof (induction "29 - k" arbitrary: k low)
  case 0
  then have k: "k = 29" by simp
  show ?case
  proof (cases "over_budget (g (2 ^ k)) budget")
    case True
    then show ?thesis
      by (subst expand_bound.simps) (simp add: tot bracket_def affordable_def)
  next
    case False
    then show ?thesis
      by (subst expand_bound.simps) (simp add: tot bracket_def affordable_def k)
  qed
next
  case (Suc n)
  then have k: "k \<le> 28" by simp
  have "(2::int) ^ (k + 1) \<le> 2 ^ 29"
    using k by (intro power_increasing) simp_all
  then have small: "\<not> (2::int) ^ k * 2 > 1000000000" by simp
  have pos: "(1::int) \<le> 2 ^ k" by simp
  show ?case
  proof (cases "over_budget (g (2 ^ k)) budget")
    case True
    then show ?thesis
      by (subst expand_bound.simps) (simp add: tot bracket_def affordable_def)
  next
    case False
    have "n = 29 - Suc k" using Suc.hyps(2) by simp
    moreover have "Suc k \<le> 29" using k by simp
    ultimately obtain l h where
      lh: "expand_bound cf budget (2 ^ k) (2 ^ Suc k) = Some (Inr (l, h))"
        "bracket cf budget (2 ^ k) (2 ^ Suc k) l h"
      using Suc.hyps(1) [of "Suc k" "2 ^ k"] by blast
    have aff: "affordable cf budget (2 ^ k)"
      using False by (simp add: affordable_def tot)
    have "expand_bound cf budget low (2 ^ k) = Some (Inr (l, h))"
      using False small lh(1) by (subst expand_bound.simps) (simp add: tot mult.commute)
    moreover have "bracket cf budget low (2 ^ k) l h"
    proof (rule bracket_step [OF aff])
      show "(0::int) < 2 ^ k" by simp
      show "2 * (2::int) ^ k \<le> 2 ^ 30" using \<open>(2::int) ^ (k + 1) \<le> 2 ^ 29\<close> by simp
      show "bracket cf budget (2 ^ k) (2 * 2 ^ k) l h" using lh(2) by simp
    qed
    ultimately show ?thesis by blast
  qed
qed

lemma bisect_spec:
  assumes "\<And>q. cf q = Inr (g q)" "affordable cf budget low" "low \<le> high"
  shows "\<exists>q. bisect cf budget low high = Inr q \<and> low \<le> q \<and> q \<le> high \<and>
     affordable cf budget q \<and> (q = high \<or> \<not> affordable cf budget (q + 1))"
  using assms
proof (induction cf budget low high rule: bisect.induct)
  case (1 cf budget low high)
  show ?case
  proof (cases "low < high")
    case False
    then have "low = high" using "1.prems"(3) by simp
    then show ?thesis using "1.prems"(2) by simp
  next
    case True
    define mid where "mid = (low + high + 1) div 2"
    have mid: "low < mid" "mid \<le> high" using True by (simp_all add: mid_def)
    have cf: "cf mid = Inr (g mid)" by (rule "1.prems"(1))
    show ?thesis
    proof (cases "over_budget (g mid) budget")
      case ob: True
      have "\<exists>q. bisect cf budget low (mid - 1) = Inr q \<and> low \<le> q \<and> q \<le> mid - 1 \<and>
         affordable cf budget q \<and> (q = mid - 1 \<or> \<not> affordable cf budget (q + 1))"
        using "1.IH"(1) [OF True mid_def cf ob "1.prems"(1) "1.prems"(2)] mid by simp
      then obtain q where q: "bisect cf budget low (mid - 1) = Inr q" "low \<le> q" "q \<le> mid - 1"
        "affordable cf budget q" "q = mid - 1 \<or> \<not> affordable cf budget (q + 1)" by blast
      have "\<not> affordable cf budget mid" using ob cf by (simp add: affordable_def)
      then have "\<not> affordable cf budget (q + 1)" using q(5) by auto
      moreover have "bisect cf budget low high = Inr q"
        using True ob cf q(1) by (subst bisect.simps) (simp add: mid_def [symmetric])
      ultimately show ?thesis using q mid by auto
    next
      case nob: False
      have affm: "affordable cf budget mid" using nob cf by (simp add: affordable_def)
      have "\<exists>q. bisect cf budget mid high = Inr q \<and> mid \<le> q \<and> q \<le> high \<and>
         affordable cf budget q \<and> (q = high \<or> \<not> affordable cf budget (q + 1))"
        using "1.IH"(2) [OF True mid_def cf nob "1.prems"(1) affm] mid by simp
      then obtain q where q: "bisect cf budget mid high = Inr q" "mid \<le> q" "q \<le> high"
        "affordable cf budget q" "q = high \<or> \<not> affordable cf budget (q + 1)" by blast
      have "bisect cf budget low high = Inr q"
        using True nob cf q(1) by (subst bisect.simps) (simp add: mid_def [symmetric])
      then show ?thesis using q mid by auto
    qed
  qed
qed


lemma cost_for_qty_Fin:
  "b \<noteq> 0 \<Longrightarrow> cost_for_qty (Fin b) (Fin qy) (Fin qn) side mode q =
     Inr (Fin (price_real b qy qn side mode q))"
  by (simp add: cost_for_qty_def lmsr_cost_Fin price_real_def)

lemma affordable_Fin:
  "b \<noteq> 0 \<Longrightarrow> affordable (cost_for_qty (Fin b) (Fin qy) (Fin qn) side mode) (Fin budget) q
     \<longleftrightarrow> price_real b qy qn side mode q \<le> budget"
  by (auto simp: affordable_def cost_for_qty_Fin over_budget_def)

lemma price_real_mono:
  "0 < b \<Longrightarrow> q \<le> q' \<Longrightarrow> price_real b qy qn side mode q \<le> price_real b qy qn side mode q'"
  by (simp add: price_real_def cost_real_mono)

lemma price_real_le_qty:
  "0 < b \<Longrightarrow> 0 \<le> q \<Longrightarrow> price_real b qy qn side mode q \<le> real_of_int q"
  by (simp add: price_real_def cost_real_le_qty payout_le_qty)

lemma affordable_downward:
  assumes "0 < b" "q \<le> q'"
    "affordable (cost_for_qty (Fin b) (Fin qy) (Fin qn) side mode) (Fin budget) q'"
  shows "affordable (cost_for_qty (Fin b) (Fin qy) (Fin qn) side mode) (Fin budget) q"
  using assms price_real_mono [OF assms(1,2), of qy qn side mode]
  by (simp add: affordable_Fin)

lemma max_int_quantity_for_budget_spec:
  fixes qy qn :: real and side mode :: string
  assumes b: "0 < b" and budget: "0 < budget"
  defines "cf \<equiv> cost_for_qty (Fin b) (Fin qy) (Fin qn) side mode"
  defines "res \<equiv> max_int_quantity_for_budget (Fin b) (Fin qy) (Fin qn) side (Fin budget) mode"
  shows "(\<not> affordable cf (Fin budget) 1 \<longrightarrow>
            res = Inl (ValueError ''budget insufficient for 1 contract'')) \<and>
         (affordable cf (Fin budget) 1 \<longrightarrow>
            (\<exists>q. res = Inr q \<and> 1 \<le> q \<and> q \<le> 2 ^ 30 \<and> affordable cf (Fin budget) q \<and>
               (q < 2 ^ 30 \<longrightarrow> (\<forall>q'>q. \<not> affordable cf (Fin budget) q'))))"
proof -
  have tot: "\<And>q. cf q = Inr (Fin (price_real b qy qn side mode q))"
    using b by (simp add: cf_def cost_for_qty_Fin)
  have down: "\<And>q q'. q \<le> q' \<Longrightarrow> affordable cf (Fin budget) q' \<Longrightarrow> affordable cf (Fin budget) q"
    unfolding cf_def using affordable_downward [OF b] by blast
  obtain l h where ex: "expand_bound cf (Fin budget) 0 1 = Some (Inr (l, h))"
    and br: "bracket cf (Fin budget) 0 1 l h"
    using expand_bound_spec [of cf _ 0 "Fin budget" 0, OF tot] by auto
  have res: "res = (if l = 0 then Inl (ValueError ''budget insufficient for 1 contract'')
                    else bisect cf (Fin budget) l h)"
    using budget ex by (simp add: res_def max_int_quantity_for_budget_def cf_def)
  show ?thesis
  proof (intro conjI impI)
    assume na: "\<not> affordable cf (Fin budget) 1"
    have "l = 0"
    proof (rule ccontr)
      assume "l \<noteq> 0"
      then have "affordable cf (Fin budget) l" "1 \<le> l" using br by (auto simp: bracket_def)
      then show False using na down by blast
    qed
    then show "res = Inl (ValueError ''budget insufficient for 1 contract'')"
      using res by simp
  next
    assume a1: "affordable cf (Fin budget) 1"
    then have l: "affordable cf (Fin budget) l" "1 \<le> l" "l < h" "h \<le> 2 ^ 30"
      "\<not> affordable cf (Fin budget) h \<or> h = 2 ^ 30"
      using br by (auto simp: bracket_def)
    obtain q where q: "bisect cf (Fin budget) l h = Inr q" "l \<le> q" "q \<le> h"
      "affordable cf (Fin budget) q" "q = h \<or> \<not> affordable cf (Fin budget) (q + 1)"
      using bisect_spec [of cf _ "Fin budget" l h, OF tot l(1)] l(3) by auto
    have "\<forall>q'>q. \<not> affordable cf (Fin budget) q'" if "q < 2 ^ 30"
    proof -
      have "q \<noteq> h" using that l(5) q(4) by auto
      then have n: "\<not> affordable cf (Fin budget) (q + 1)" using q(5) by simp
      show ?thesis
      proof (intro allI impI)
        fix q' assume "q < q'"
        then have "q + 1 \<le> q'" by simp
        then show "\<not> affordable cf (Fin budget) q'" using n down by blast
      qed
    qed
    then show "\<exists>q. res = Inr q \<and> 1 \<le> q \<and> q \<le> 2 ^ 30 \<and> affordable cf (Fin budget) q \<and>
               (q < 2 ^ 30 \<longrightarrow> (\<forall>q'>q. \<not> affordable cf (Fin budget) q'))"
      using res q l by auto
  qed
qed

lemma expand_bound_returns_pow:
  "k \<le> 29 \<Longrightarrow> \<exists>r. expand_bound cf budget low (2 ^ k) = Some r"
proof (induction "29 - k" arbitrary: k low)
  case 0
  then have k: "k = 29" by simp
  show ?case
    by (subst expand_bound.simps) (simp add: k split: sum.split)
next
  case (Suc n)
  then have "n = 29 - Suc k" "Suc k \<le> 29" by simp_all
  then obtain r where "expand_bound cf budget (2 ^ k) (2 ^ Suc k) = Some r"
    using Suc.hyps(1) [of "Suc k" "2 ^ k"] by blast
  then show ?case
    by (subst expand_bound.simps) (simp add: mult.commute split: sum.split)
qed

lemma expand_bound_returns: "\<exists>r. expand_bound cf budget 0 1 = Some r"
  using expand_bound_returns_pow [of 0 cf budget 0] by simp

text \<open>
  C3 (amended). For \<open>b > 0\<close>, finite inventories and a positive finite budget, in buy
  and in sell mode: when one contract is not affordable the inversion fails with "budget
  insufficient for 1 contract"; otherwise it returns an affordable integer \<open>q\<close> with
  \<open>1 \<le> q \<le> 2^30\<close>, and when \<open>q\<close> is below the capped bound \<open>2^30\<close> no larger
  quantity is affordable, so \<open>q\<close> is the largest one and \<open>cost(q) \<le> budget < cost(q + 1)\<close>.
\<close>

theorem max_int_quantity_for_budget_largest_up_to_cap:
  fixes q_yes q_no :: real and side mode :: string
  assumes "0 < b" and "0 < budget"
  shows "(\<not> affordable (cost_for_qty (Fin b) (Fin q_yes) (Fin q_no) side mode) (Fin budget) 1 \<longrightarrow>
            max_int_quantity_for_budget (Fin b) (Fin q_yes) (Fin q_no) side (Fin budget) mode
              = Inl (ValueError ''budget insufficient for 1 contract'')) \<and>
         (affordable (cost_for_qty (Fin b) (Fin q_yes) (Fin q_no) side mode) (Fin budget) 1 \<longrightarrow>
            (\<exists>q. max_int_quantity_for_budget (Fin b) (Fin q_yes) (Fin q_no) side (Fin budget) mode
                   = Inr q \<and> 1 \<le> q \<and> q \<le> 2 ^ 30 \<and>
               affordable (cost_for_qty (Fin b) (Fin q_yes) (Fin q_no) side mode) (Fin budget) q \<and>
               (q < 2 ^ 30 \<longrightarrow>
                 (\<forall>q'>q. \<not> affordable (cost_for_qty (Fin b) (Fin q_yes) (Fin q_no) side mode)
                             (Fin budget) q'))))"
  using max_int_quantity_for_budget_spec [OF assms] by blast

lemma price_two_over_one: "1 < price_real 1 0 0 ''yes'' ''buy'' 2"
proof -
  define e :: real where "e = exp 1"
  have e2: "exp 2 = e * e" using exp_add [of 1 "1::real"] by (simp add: e_def)
  have "e \<noteq> 1" using exp_gt_one [of "1::real"] by (simp add: e_def)
  then have "0 < (e - 1) * (e - 1)" by (simp add: zero_less_mult_iff less_le not_le)
  then have lt: "e < (e * e + 1) / 2" by (simp add: algebra_simps)
  have epos: "0 < e" by (simp add: e_def)
  have "ln e < ln ((e * e + 1) / 2)"
    using lt epos by (subst ln_less_cancel_iff) auto
  moreover have "ln e = 1" by (simp add: e_def)
  moreover have "ln ((e * e + 1) / 2) = ln (exp 2 + 1) - ln 2"
  proof -
    have "0 < e * e + 1" using epos by (simp add: add_pos_pos)
    then show ?thesis by (simp add: e2 ln_div)
  qed
  ultimately have "1 < ln (exp 2 + 1) - ln (2::real)" by simp
  then show ?thesis
    by (simp add: price_real_def cost_real_def potential_def lse_def)
qed

theorem max_int_quantity_for_budget_largest_up_to_cap_witness:
  "(0::real) < 1 \<and>
   max_int_quantity_for_budget (Fin 1) (Fin 0) (Fin 0) ''yes'' (Fin 1) ''buy'' = Inr 1"
proof -
  let ?cf = "cost_for_qty (Fin 1) (Fin 0) (Fin 0) ''yes'' ''buy''"
  have a1: "affordable ?cf (Fin 1) 1"
    using price_real_le_qty [of 1 1 0 0 "''yes''" "''buy''"] by (simp add: affordable_Fin)
  have n2: "\<not> affordable ?cf (Fin 1) 2"
    using price_two_over_one by (simp add: affordable_Fin)
  obtain q where q: "max_int_quantity_for_budget (Fin 1) (Fin 0) (Fin 0) ''yes'' (Fin 1) ''buy'' = Inr q"
    "1 \<le> q" "affordable ?cf (Fin 1) q"
    using max_int_quantity_for_budget_largest_up_to_cap [of 1 1 0 0 "''yes''" "''buy''"] a1
    by auto
  have "q < 2"
  proof (rule ccontr)
    assume "\<not> q < 2"
    then have "2 \<le> q" by simp
    then show False using affordable_downward [of 1 2 q 0 0 "''yes''" "''buy''" 1] q(3) n2 by simp
  qed
  then show ?thesis using q by simp
qed

text \<open>
  C3 as stated fails: with \<open>b = 20\<close>, empty inventories and a budget of \<open>2 * 10^9\<close> the
  inversion returns \<open>2^30 = 1073741824\<close>, the bound at which the doubling stopped, although
  \<open>2^30 + 1\<close> contracts are affordable too.
\<close>

theorem max_int_quantity_for_budget_stops_at_cap:
  "max_int_quantity_for_budget (Fin 20) (Fin 0) (Fin 0) ''yes'' (Fin 2000000000) ''buy''
     = Inr 1073741824 \<and>
   affordable (cost_for_qty (Fin 20) (Fin 0) (Fin 0) ''yes'' ''buy'') (Fin 2000000000) 1073741825"
proof -
  let ?cf = "cost_for_qty (Fin 20) (Fin 0) (Fin 0) ''yes'' ''buy''"
  have big: "affordable ?cf (Fin 2000000000) 1073741825"
    using price_real_le_qty [of 20 1073741825 0 0 "''yes''" "''buy''"] by (simp add: affordable_Fin)
  then have a1: "affordable ?cf (Fin 2000000000) 1"
    using affordable_downward [of 20 1 1073741825 0 0 "''yes''" "''buy''" 2000000000] by simp
  obtain q where q: "max_int_quantity_for_budget (Fin 20) (Fin 0) (Fin 0) ''yes'' (Fin 2000000000) ''buy'' = Inr q"
    "q \<le> 2 ^ 30" "q < 2 ^ 30 \<longrightarrow> (\<forall>q'>q. \<not> affordable ?cf (Fin 2000000000) q')"
    using max_int_quantity_for_budget_spec [of 20 2000000000 0 0 "''yes''" "''buy''"] a1
    by auto
  have "\<not> q < 2 ^ 30"
  proof
    assume lt: "q < 2 ^ 30"
    then have "q < 1073741825" by simp
    then show False using q(3) lt big by blast
  qed
  then have "q = 1073741824" using q(2) by simp
  then show ?thesis using q(1) big by simp
qed

section \<open>Tables and trades\<close>

lemma find_update_first_same:
  "(\<And>x. P x \<Longrightarrow> P (f x)) \<Longrightarrow> find P (update_first P f xs) = map_option f (find P xs)"
  by (induction xs) auto

lemma find_update_first_other:
  "(\<And>x. P x \<Longrightarrow> \<not> Q x \<and> \<not> Q (f x)) \<Longrightarrow> find Q (update_first P f xs) = find Q xs"
  by (induction xs) auto


lemma update_first_absent: "find P xs = None \<Longrightarrow> update_first P f xs = xs"
  by (induction xs) (auto split: if_splits)

lemma length_update_first [simp]: "length (update_first P f xs) = length xs"
  by (induction xs) auto

lemma find_append: "find P (xs @ ys) = (case find P xs of None \<Rightarrow> find P ys | Some x \<Rightarrow> Some x)"
  by (induction xs) auto

lemma find_SomeD: "find P xs = Some x \<Longrightarrow> P x \<and> x \<in> set xs"
  by (induction xs) (auto split: if_splits)

lemma buy_collateral_InrD:
  assumes "buy_collateral amm ch = Inr (amm3, ch1, delta)"
  shows "delta = required_collateral amm - c_points ch"
    and "amm3 = amm\<lparr>a_points := a_points amm - max 0 delta\<rparr>"
    and "ch1 = ch\<lparr>c_points := c_points ch + max 0 delta\<rparr>"
    and "0 < delta \<longrightarrow> delta \<le> a_points amm"
    and "- (1 / 10 ^ 9) \<le> delta"
  using assms by (auto simp: buy_collateral_def Let_def split: if_splits)

lemma sell_collateral_InrD:
  assumes "sell_collateral amm ch = Inr (amm3, ch1, delta)"
  shows "delta = c_points ch - required_collateral amm"
    and "amm3 = amm\<lparr>a_points := a_points amm + max 0 delta\<rparr>"
    and "ch1 = ch\<lparr>c_points := c_points ch - max 0 delta\<rparr>"
    and "- (1 / 10 ^ 9) \<le> delta"
  using assms by (auto simp: sell_collateral_def Let_def split: if_splits)

lemma trade_buy_InrD:
  assumes "trade_buy mode st username market_id quantity side budget_points is_visible = Inr (st', out)"
  obtains st1 db_user db_market amm ch st2 pos qty cost amm3 ch1 delta yes_price2 where
    "side = ''yes'' \<or> side = ''no''"
    "0 < quantity \<or> budget_given budget_points"
    "(st1, db_user) = (case find_user st username of Some u \<Rightarrow> (st, u)
                       | None \<Rightarrow> get_or_create_user st username 1000)"
    "get_market_bundle_for_update st1 market_id = Inr (db_market, amm, ch)"
    "\<not> m_resolved db_market"
    "\<not> hidden is_visible (m_name db_market) username"
    "(st2, pos) = get_or_create_position_for_update st1 (u_id db_user) market_id"
    "(if budget_given budget_points
      then ebind (max_int_quantity_for_budget (Fin (m_b db_market)) (Fin (- a_qYes amm))
                    (Fin (- a_qNo amm)) side (Fin (the budget_points)) ''buy'')
             (\<lambda>q. Inr (real_of_int q))
      else Inr quantity) = Inr qty"
    "lmsr_cost (Fin (m_b db_market)) (Fin (- a_qYes amm)) (Fin (- a_qNo amm)) (Fin qty) side
       = Inr (Fin cost)"
    "cost \<le> u_points db_user"
    "buy_collateral
       (if side = ''yes'' then amm\<lparr>a_points := a_points amm + cost, a_qYes := a_qYes amm - qty\<rparr>
        else amm\<lparr>a_points := a_points amm + cost, a_qNo := a_qNo amm - qty\<rparr>) ch
       = Inr (amm3, ch1, delta)"
    "st' = write_ledger mode
       (flush_rows st2 (db_user\<lparr>u_points := u_points db_user - cost\<rparr>)
          (db_market\<lparr>m_amm_points := a_points amm3\<rparr>) amm3 ch1
          (if side = ''yes'' then pos\<lparr>p_qYes := p_qYes pos + qty\<rparr>
           else pos\<lparr>p_qNo := p_qNo pos + qty\<rparr>))
       market_id (u_id db_user) ''trade buy'' ''trade sell'' (- cost) side qty delta True"
    "lmsr_yes_price (Fin (m_b db_market)) (Fin (- a_qYes amm3)) (Fin (- a_qNo amm3)) = Inr yes_price2"
    "out = \<lparr>r_new_balance = u_points db_user - cost, r_new_price = side_price side yes_price2,
            r_quantity = qty, r_order_cost = cost\<rparr>"
  using assms unfolding trade_buy_def Let_def
  by (auto simp: ebind_def split: if_splits sum.splits prod.splits pyfloat.splits)


lemma trade_sell_InrD:
  assumes "trade_sell mode st username market_id quantity side budget_points is_visible = Inr (st', out)"
  obtains db_user db_market amm ch pos qty cost payout amm3 ch1 delta yes_price2 where
    "side = ''yes'' \<or> side = ''no''"
    "0 < quantity \<or> budget_given budget_points"
    "find_user st username = Some db_user"
    "get_market_bundle_for_update st market_id = Inr (db_market, amm, ch)"
    "\<not> m_resolved db_market"
    "\<not> hidden is_visible (m_name db_market) username"
    "find_position st (u_id db_user) market_id = Some pos"
    "(if budget_given budget_points
      then ebind (max_int_quantity_for_budget (Fin (m_b db_market)) (Fin (- a_qYes amm))
                    (Fin (- a_qNo amm)) side (Fin (the budget_points)) ''sell'')
             (\<lambda>q. Inr (real_of_int (min q \<lfloor>if side = ''yes'' then p_qYes pos else p_qNo pos\<rfloor>)))
      else Inr quantity) = Inr qty"
    "0 < qty"
    "qty \<le> (if side = ''yes'' then p_qYes pos else p_qNo pos)"
    "lmsr_cost (Fin (m_b db_market)) (Fin (- a_qYes amm)) (Fin (- a_qNo amm)) (Fin (- qty)) side
       = Inr cost"
    "pf_neg cost = Fin payout"
    "payout \<le> a_points amm"
    "sell_collateral
       (if side = ''yes'' then amm\<lparr>a_points := a_points amm - payout, a_qYes := a_qYes amm + qty\<rparr>
        else amm\<lparr>a_points := a_points amm - payout, a_qNo := a_qNo amm + qty\<rparr>) ch
       = Inr (amm3, ch1, delta)"
    "st' = write_ledger mode
       (flush_rows st (db_user\<lparr>u_points := u_points db_user + payout\<rparr>)
          (db_market\<lparr>m_amm_points := a_points amm3\<rparr>) amm3 ch1
          (if side = ''yes'' then pos\<lparr>p_qYes := p_qYes pos - qty\<rparr>
           else pos\<lparr>p_qNo := p_qNo pos - qty\<rparr>))
       market_id (u_id db_user) ''trade sell'' ''trade buy'' payout side qty delta False"
    "lmsr_yes_price (Fin (m_b db_market)) (Fin (- a_qYes amm3)) (Fin (- a_qNo amm3)) = Inr yes_price2"
    "isfinite yes_price2"
    "out = \<lparr>r_new_balance = u_points db_user + payout, r_new_price = side_price side yes_price2,
            r_quantity = qty, r_order_cost = payout\<rparr>"
  using assms unfolding trade_sell_def Let_def
  by (auto simp: ebind_def split: if_splits sum.splits prod.splits pyfloat.splits option.splits)

lemma bundle_InrD:
  assumes "get_market_bundle_for_update st market_id = Inr (m, a, c)"
  shows "find_market st market_id = Some m" "find_amm st market_id = Some a"
    "find_ch st market_id = Some c" "m_id m = market_id" "a_market_id a = market_id"
    "c_market_id c = market_id"
  using assms
  by (auto simp: get_market_bundle_for_update_def find_market_def find_amm_def find_ch_def
      split: option.splits dest: find_SomeD)

lemma bundle_tables:
  "markets st1 = markets st \<Longrightarrow> amms st1 = amms st \<Longrightarrow> chs st1 = chs st \<Longrightarrow>
   get_market_bundle_for_update st1 market_id = get_market_bundle_for_update st market_id"
  by (simp add: get_market_bundle_for_update_def find_market_def find_amm_def find_ch_def)

lemma user_lookup_cases:
  assumes "(st1, db_user) = (case find_user st username of Some u \<Rightarrow> (st, u)
                             | None \<Rightarrow> get_or_create_user st username pts)"
  shows "find_user st1 username = Some db_user"
    and "markets st1 = markets st" and "amms st1 = amms st" and "chs st1 = chs st"
    and "positions st1 = positions st" and "ledger st1 = ledger st"
    and "users st1 = users st @ (case find_user st username of Some u \<Rightarrow> []
           | None \<Rightarrow> [\<lparr>u_id = next_id (map u_id (users st)), u_username = username, u_points = pts\<rparr>])"
    and "u_username db_user = username"
  using assms
  by (auto simp: get_or_create_user_def find_user_def Let_def find_append
      split: option.splits dest: find_SomeD)

lemma position_lookup_cases:
  assumes "(st2, pos) = get_or_create_position_for_update st1 user_id market_id"
  shows "find_position st2 user_id market_id = Some pos"
    and "markets st2 = markets st1" and "amms st2 = amms st1" and "chs st2 = chs st1"
    and "users st2 = users st1" and "ledger st2 = ledger st1"
    and "positions st2 = positions st1 @ (case find_position st1 user_id market_id of Some p \<Rightarrow> []
           | None \<Rightarrow> [\<lparr>p_market_id = market_id, p_user_id = user_id, p_qYes = 0, p_qNo = 0\<rparr>])"
    and "p_user_id pos = user_id" and "p_market_id pos = market_id"
  using assms
  by (auto simp: get_or_create_position_for_update_def find_position_def Let_def find_append
      split: option.splits dest: find_SomeD)

lemma system_user_tables:
  assumes "get_or_create_system_user_id st name 0 = (st1, uid)"
  shows "markets st1 = markets st" "amms st1 = amms st" "chs st1 = chs st"
    "positions st1 = positions st" "ledger st1 = ledger st"
    "\<exists>extra. users st1 = users st @ extra \<and> (\<forall>u \<in> set extra. u_points u = 0)"
  using assms
  by (auto simp: get_or_create_system_user_id_def Let_def split: option.splits)

lemma system_actor_tables:
  assumes "get_system_actor_ids st = (st2, ids)"
  shows "markets st2 = markets st" "amms st2 = amms st" "chs st2 = chs st"
    "positions st2 = positions st" "ledger st2 = ledger st"
    "\<exists>extra. users st2 = users st @ extra \<and> (\<forall>u \<in> set extra. u_points u = 0)"
proof -
  obtain st1 amm_id where 1: "get_or_create_system_user_id st SYSTEM_AMM_USERNAME 0 = (st1, amm_id)"
    by (cases "get_or_create_system_user_id st SYSTEM_AMM_USERNAME 0")
  obtain st2' ch_id where 2: "get_or_create_system_user_id st1 SYSTEM_CH_USERNAME 0 = (st2', ch_id)"
    by (cases "get_or_create_system_user_id st1 SYSTEM_CH_USERNAME 0")
  have eq: "st2 = st2'" using assms 1 2 by (simp add: get_system_actor_ids_def)
  note a = system_user_tables [OF 1] and b = system_user_tables [OF 2]
  show "markets st2 = markets st" "amms st2 = amms st" "chs st2 = chs st"
    "positions st2 = positions st" "ledger st2 = ledger st"
    using a b eq by simp_all
  from a(6) obtain e1 where e1: "users st1 = users st @ e1" "\<forall>u \<in> set e1. u_points u = 0" by blast
  from b(6) obtain e2 where e2: "users st2' = users st1 @ e2" "\<forall>u \<in> set e2. u_points u = 0" by blast
  have "users st2 = users st @ (e1 @ e2)" "\<forall>u \<in> set (e1 @ e2). u_points u = 0"
    using e1 e2 eq by auto
  then show "\<exists>extra. users st2 = users st @ extra \<and> (\<forall>u \<in> set extra. u_points u = 0)"
    by blast
qed

lemma write_ledger_tables:
  "markets (write_ledger mode st mid uid ur ar ud side qty delta ib) = markets st"
  "amms (write_ledger mode st mid uid ur ar ud side qty delta ib) = amms st"
  "chs (write_ledger mode st mid uid ur ar ud side qty delta ib) = chs st"
  "positions (write_ledger mode st mid uid ur ar ud side qty delta ib) = positions st"
proof -
  let ?st1 = "ledger_add st \<lparr>l_market_id = mid, l_user_id = uid, l_reason = ur,
               l_delta = ud, l_side = side, l_amount = Some qty\<rparr>"
  obtain st2 ids where g: "get_system_actor_ids ?st1 = (st2, ids)"
    by (cases "get_system_actor_ids ?st1")
  note t = system_actor_tables [OF g]
  show "markets (write_ledger mode st mid uid ur ar ud side qty delta ib) = markets st"
    "amms (write_ledger mode st mid uid ur ar ud side qty delta ib) = amms st"
    "chs (write_ledger mode st mid uid ur ar ud side qty delta ib) = chs st"
    "positions (write_ledger mode st mid uid ur ar ud side qty delta ib) = positions st"
    using t g by (auto simp: write_ledger_def Let_def ledger_add_def split: prod.splits)
qed

lemma write_ledger_users:
  "\<exists>extra. users (write_ledger mode st mid uid ur ar ud side qty delta ib) = users st @ extra \<and>
     (\<forall>u \<in> set extra. u_points u = 0)"
proof -
  let ?st1 = "ledger_add st \<lparr>l_market_id = mid, l_user_id = uid, l_reason = ur,
               l_delta = ud, l_side = side, l_amount = Some qty\<rparr>"
  obtain st2 ids where g: "get_system_actor_ids ?st1 = (st2, ids)"
    by (cases "get_system_actor_ids ?st1")
  from system_actor_tables(6) [OF g] obtain extra where
    e: "users st2 = users ?st1 @ extra" "\<forall>u \<in> set extra. u_points u = 0" by blast
  have u1: "users ?st1 = users st" by (simp add: ledger_add_def)
  show ?thesis
  proof (cases "mode = Full")
    case True
    then have "users (write_ledger mode st mid uid ur ar ud side qty delta ib) = users st2"
      using g by (auto simp: write_ledger_def Let_def ledger_add_def split: prod.splits)
    then show ?thesis using e u1 by auto
  next
    case False
    then have "users (write_ledger mode st mid uid ur ar ud side qty delta ib) = users st @ []"
      by (auto simp: write_ledger_def Let_def ledger_add_def)
    then show ?thesis by (metis empty_iff list.set(1))
  qed
qed

section \<open>Settled markets\<close>

lemma find_update_first_key:
  "k \<noteq> k' \<Longrightarrow> key r = k \<Longrightarrow>
   find (\<lambda>x. key x = k') (update_first (\<lambda>x. key x = k) (\<lambda>_. r) xs) = find (\<lambda>x. key x = k') xs"
  by (induction xs) auto

lemma find_update_first_key_map:
  "k \<noteq> k' \<Longrightarrow> (\<And>x. key (f x) = key x) \<Longrightarrow>
   find (\<lambda>x. key x = k') (update_first (\<lambda>x. key x = k) f xs) = find (\<lambda>x. key x = k') xs"
  by (induction xs) auto

lemma trade_buy_markets:
  assumes "trade_buy mode st username market_id quantity side budget_points is_visible = Inr (st', out)"
  shows "\<exists>m x. find_market st market_id = Some m \<and> \<not> m_resolved m \<and>
     markets st' = update_first (\<lambda>r. m_id r = market_id) (\<lambda>_. m\<lparr>m_amm_points := x\<rparr>) (markets st)"
proof -
  from assms show ?thesis
  proof (rule trade_buy_InrD)
    fix st1 db_user db_market amm ch st2 pos qty cost amm3 ch1 delta yes_price2
    assume u: "(st1, db_user) = (case find_user st username of Some u \<Rightarrow> (st, u)
                       | None \<Rightarrow> get_or_create_user st username 1000)"
      and b: "get_market_bundle_for_update st1 market_id = Inr (db_market, amm, ch)"
      and r: "\<not> m_resolved db_market"
      and p: "(st2, pos) = get_or_create_position_for_update st1 (u_id db_user) market_id"
      and st': "st' = write_ledger mode
       (flush_rows st2 (db_user\<lparr>u_points := u_points db_user - cost\<rparr>)
          (db_market\<lparr>m_amm_points := a_points amm3\<rparr>) amm3 ch1
          (if side = ''yes'' then pos\<lparr>p_qYes := p_qYes pos + qty\<rparr>
           else pos\<lparr>p_qNo := p_qNo pos + qty\<rparr>))
       market_id (u_id db_user) ''trade buy'' ''trade sell'' (- cost) side qty delta True"
    note ul = user_lookup_cases [OF u] and pl = position_lookup_cases [OF p]
      and bd = bundle_InrD [OF b]
    have "find_market st market_id = Some db_market"
      using bd(1) ul(2) by (simp add: find_market_def)
    moreover have "markets st' = update_first (\<lambda>r. m_id r = market_id)
        (\<lambda>_. db_market\<lparr>m_amm_points := a_points amm3\<rparr>) (markets st)"
      using st' pl(2) ul(2) bd(4) by (simp add: write_ledger_tables flush_rows_def)
    ultimately show ?thesis using r by blast
  qed
qed

lemma trade_sell_markets:
  assumes "trade_sell mode st username market_id quantity side budget_points is_visible = Inr (st', out)"
  shows "\<exists>m x. find_market st market_id = Some m \<and> \<not> m_resolved m \<and>
     markets st' = update_first (\<lambda>r. m_id r = market_id) (\<lambda>_. m\<lparr>m_amm_points := x\<rparr>) (markets st)"
proof -
  from assms show ?thesis
  proof (rule trade_sell_InrD)
    fix db_user db_market amm ch pos qty cost payout amm3 ch1 delta yes_price2
    assume b: "get_market_bundle_for_update st market_id = Inr (db_market, amm, ch)"
      and r: "\<not> m_resolved db_market"
      and st': "st' = write_ledger mode
       (flush_rows st (db_user\<lparr>u_points := u_points db_user + payout\<rparr>)
          (db_market\<lparr>m_amm_points := a_points amm3\<rparr>) amm3 ch1
          (if side = ''yes'' then pos\<lparr>p_qYes := p_qYes pos - qty\<rparr>
           else pos\<lparr>p_qNo := p_qNo pos - qty\<rparr>))
       market_id (u_id db_user) ''trade sell'' ''trade buy'' payout side qty delta False"
    note bd = bundle_InrD [OF b]
    have "markets st' = update_first (\<lambda>r. m_id r = market_id)
        (\<lambda>_. db_market\<lparr>m_amm_points := a_points amm3\<rparr>) (markets st)"
      using st' bd(4) by (simp add: write_ledger_tables flush_rows_def)
    then show ?thesis using r bd(1) by blast
  qed
qed

lemma market_init_markets:
  "\<exists>extra. markets (fst (market_init st name b)) = markets st @ extra"
  by (auto simp: market_init_def Let_def split: option.splits prod.splits)

lemma settlement_InrD:
  assumes "settlement st market_id outcome = Inr st'"
  shows "outcome = ''yes'' \<or> outcome = ''no''"
    and "\<exists>m. find_market st market_id = Some m \<and> \<not> m_resolved m"
    and "st' = st\<lparr>markets := update_first (\<lambda>m. m_id m = market_id)
                   (\<lambda>m. m\<lparr>m_resolved := True, m_outcome := Some (outcome = ''yes'')\<rparr>) (markets st),
                 users := pay_winners outcome (filter (\<lambda>p. p_market_id p = market_id) (positions st))
                   (users st)\<rparr>"
  using assms by (auto simp: settlement_def Let_def split: if_splits option.splits)

lemma step_keeps_resolved:
  assumes "find_market st market_id = Some m" "m_resolved m"
  shows "find_market (step mode st request) market_id = Some m"
proof (cases request)
  case (Buy u mid q s bp vis)
  show ?thesis
  proof (cases "trade_buy mode st u mid q s bp vis")
    case (Inl e)
    then show ?thesis using Buy assms by simp
  next
    case (Inr r)
    obtain st' out where r: "r = (st', out)" by (cases r)
    from trade_buy_markets [OF Inr [unfolded r]] obtain m' x where
      m': "find_market st mid = Some m'" "\<not> m_resolved m'"
      "markets st' = update_first (\<lambda>r. m_id r = mid) (\<lambda>_. m'\<lparr>m_amm_points := x\<rparr>) (markets st)"
      by blast
    have ne: "mid \<noteq> market_id" using m' assms by auto
    have "m_id m' = mid" using m'(1) by (auto simp: find_market_def dest: find_SomeD)
    then have "find_market st' market_id = find_market st market_id"
      using ne m'(3) by (simp add: find_market_def find_update_first_key [where key = m_id])
    then show ?thesis using Buy Inr r assms by simp
  qed
next
  case (Sell u mid q s bp vis)
  show ?thesis
  proof (cases "trade_sell mode st u mid q s bp vis")
    case (Inl e)
    then show ?thesis using Sell assms by simp
  next
    case (Inr r)
    obtain st' out where r: "r = (st', out)" by (cases r)
    from trade_sell_markets [OF Inr [unfolded r]] obtain m' x where
      m': "find_market st mid = Some m'" "\<not> m_resolved m'"
      "markets st' = update_first (\<lambda>r. m_id r = mid) (\<lambda>_. m'\<lparr>m_amm_points := x\<rparr>) (markets st)"
      by blast
    have ne: "mid \<noteq> market_id" using m' assms by auto
    have "m_id m' = mid" using m'(1) by (auto simp: find_market_def dest: find_SomeD)
    then have "find_market st' market_id = find_market st market_id"
      using ne m'(3) by (simp add: find_market_def find_update_first_key [where key = m_id])
    then show ?thesis using Sell Inr r assms by simp
  qed
next
  case (Settle mid outcome)
  show ?thesis
  proof (cases "settlement st mid outcome")
    case (Inl e)
    then show ?thesis using Settle assms by simp
  next
    case (Inr st')
    note s = settlement_InrD [OF Inr]
    have ne: "mid \<noteq> market_id" using s(2) assms by auto
    have "find_market st' market_id = find_market st market_id"
      using ne by (subst s(3)) (simp add: find_market_def find_update_first_key_map [where key = m_id])
    then show ?thesis using Settle Inr assms by simp
  qed
next
  case (NewMarket name b)
  obtain extra where "markets (fst (market_init st name b)) = markets st @ extra"
    using market_init_markets by blast
  then show ?thesis using NewMarket assms by (simp add: find_market_def find_append)
next
  case (NewUser name pts)
  then show ?thesis using assms
    by (auto simp: user_init_def find_market_def split: option.splits)
qed

lemma run_keeps_resolved:
  "find_market st market_id = Some m \<Longrightarrow> m_resolved m \<Longrightarrow>
   find_market (run mode st requests) market_id = Some m"
  unfolding run_def
  by (induction requests arbitrary: st) (simp_all add: step_keeps_resolved)

lemma trade_buy_resolved:
  assumes "get_market_bundle_for_update st market_id = Inr (m, amm, ch)" "m_resolved m"
  shows "trade_buy mode st username market_id quantity side budget_points is_visible \<noteq> Inr r"
    and "(side = ''yes'' \<or> side = ''no'') \<Longrightarrow> 0 < quantity \<or> budget_given budget_points \<Longrightarrow>
      trade_buy mode st username market_id quantity side budget_points is_visible
        = Inl (ValueError ''Market is settled'')"
proof -
  obtain st1 db_user where u: "(st1, db_user) = (case find_user st username of Some u \<Rightarrow> (st, u)
                       | None \<Rightarrow> get_or_create_user st username 1000)"
    by (metis surj_pair)
  note ul = user_lookup_cases [OF u]
  have b: "get_market_bundle_for_update st1 market_id = Inr (m, amm, ch)"
    using assms(1) bundle_tables [OF ul(2,3,4)] by simp
  show "(side = ''yes'' \<or> side = ''no'') \<Longrightarrow> 0 < quantity \<or> budget_given budget_points \<Longrightarrow>
      trade_buy mode st username market_id quantity side budget_points is_visible
        = Inl (ValueError ''Market is settled'')"
    using b assms(2) u [symmetric] by (auto simp: trade_buy_def)
  show "trade_buy mode st username market_id quantity side budget_points is_visible \<noteq> Inr r"
    using b assms(2) u [symmetric] by (auto simp: trade_buy_def)
qed

lemma trade_sell_resolved:
  assumes "get_market_bundle_for_update st market_id = Inr (m, amm, ch)" "m_resolved m"
  shows "trade_sell mode st username market_id quantity side budget_points is_visible \<noteq> Inr r"
    and "(side = ''yes'' \<or> side = ''no'') \<Longrightarrow> 0 < quantity \<or> budget_given budget_points \<Longrightarrow>
      find_user st username \<noteq> None \<Longrightarrow>
      trade_sell mode st username market_id quantity side budget_points is_visible
        = Inl (ValueError ''Market is settled'')"
  using assms by (auto simp: trade_sell_def split: option.splits)



text \<open>
  C5 (amended). On a market that is resolved (its row, AMM and clearing house exist), a buy
  or a sell never succeeds and the database stays as it was. The error is "Market is
  settled" when the request reaches the test of the market: the side is valid, a positive
  quantity or budget is given and, for a sell, the user exists. A sell for a username
  without a user row fails with "user not found" instead, because \<^verbatim>\<open>trade_sell\<close> looks the
  user up before the market. Resolution is irreversible: a second settlement fails, and
  after any sequence of requests the market row is still the same resolved row.
\<close>

theorem settled_market_is_frozen:
  assumes "get_market_bundle_for_update st market_id = Inr (m, amm, ch)" and "m_resolved m"
  shows "trade_buy mode st username market_id quantity side budget_points is_visible \<noteq> Inr r \<and>
    trade_sell mode st username market_id quantity side budget_points is_visible \<noteq> Inr r \<and>
    ((side = ''yes'' \<or> side = ''no'') \<and> (0 < quantity \<or> budget_given budget_points) \<longrightarrow>
       trade_buy mode st username market_id quantity side budget_points is_visible
         = Inl (ValueError ''Market is settled'')) \<and>
    ((side = ''yes'' \<or> side = ''no'') \<and> (0 < quantity \<or> budget_given budget_points) \<and>
     find_user st username \<noteq> None \<longrightarrow>
       trade_sell mode st username market_id quantity side budget_points is_visible
         = Inl (ValueError ''Market is settled'')) \<and>
    ((side = ''yes'' \<or> side = ''no'') \<and> (0 < quantity \<or> budget_given budget_points) \<and>
     find_user st username = None \<longrightarrow>
       trade_sell mode st username market_id quantity side budget_points is_visible
         = Inl (ValueError ''user not found'')) \<and>
    step mode st (Buy username market_id quantity side budget_points is_visible) = st \<and>
    step mode st (Sell username market_id quantity side budget_points is_visible) = st \<and>
    settlement st market_id outcome \<noteq> Inr st' \<and>
    find_market (run mode st requests) market_id = Some m"
proof -
  note b = trade_buy_resolved [OF assms] and s = trade_sell_resolved [OF assms]
  have fm: "find_market st market_id = Some m" using bundle_InrD(1) [OF assms(1)] .
  have 1: "step mode st (Buy username market_id quantity side budget_points is_visible) = st"
    using b(1) [of mode username quantity side budget_points is_visible]
    by (auto split: sum.splits)
  have 2: "step mode st (Sell username market_id quantity side budget_points is_visible) = st"
    using s(1) [of mode username quantity side budget_points is_visible]
    by (auto split: sum.splits)
  have 3: "settlement st market_id outcome \<noteq> Inr st'"
    using fm assms(2) by (auto simp: settlement_def)
  have 4: "find_market (run mode st requests) market_id = Some m"
    using run_keeps_resolved [OF fm assms(2)] .
  have 5: "(side = ''yes'' \<or> side = ''no'') \<and> (0 < quantity \<or> budget_given budget_points) \<and>
     find_user st username = None \<longrightarrow>
       trade_sell mode st username market_id quantity side budget_points is_visible
         = Inl (ValueError ''user not found'')"
    by (auto simp: trade_sell_def)
  show ?thesis using b s 1 2 3 4 5 by simp
qed

theorem settled_market_is_frozen_witness:
  "trade_buy Off settled_db ''A'' 1 10 ''yes'' None None = Inl (ValueError ''Market is settled'') \<and>
   trade_sell Off settled_db ''A'' 1 10 ''yes'' None None = Inl (ValueError ''Market is settled'') \<and>
   step Off settled_db (Buy ''A'' 1 10 ''yes'' None None) = settled_db \<and>
   find_market (run Off settled_db [Settle 1 ''no'', Buy ''A'' 1 10 ''yes'' None None]) 1
     = Some \<lparr>m_id = 1, m_name = ''rain'', m_b = 20, m_amm_points = 10000,
             m_resolved = True, m_outcome = Some True\<rparr>"
proof -
  let ?m = "\<lparr>m_id = 1, m_name = ''rain'', m_b = 20, m_amm_points = 10000,
             m_resolved = True, m_outcome = Some True\<rparr>"
  let ?a = "\<lparr>a_market_id = 1, a_points = 10000, a_qYes = 0, a_qNo = 0\<rparr>"
  let ?c = "\<lparr>c_market_id = 1, c_points = 0\<rparr>"
  have b: "get_market_bundle_for_update settled_db 1 = Inr (?m, ?a, ?c)"
    by (simp add: get_market_bundle_for_update_def settled_db_def fresh_db_def market_db_def
        find_market_def find_amm_def find_ch_def)
  have r: "m_resolved ?m" by simp
  have u: "find_user settled_db ''A'' \<noteq> None"
    by (simp add: settled_db_def fresh_db_def find_user_def)
  show ?thesis
    using settled_market_is_frozen [OF b r, of Off "''A''" 10 "''yes''" None None _ _ _
        "[Settle 1 ''no'', Buy ''A'' 1 10 ''yes'' None None]"] u
    by simp
qed

text \<open>
  C5 as stated fails: on the settled market, the sell requested for Z, who has no user
  row, fails with "user not found" and not with "Market is settled".
\<close>

theorem sell_on_settled_market_by_unknown_user:
  "find_market settled_db 1 =
     Some \<lparr>m_id = 1, m_name = ''rain'', m_b = 20, m_amm_points = 10000,
            m_resolved = True, m_outcome = Some True\<rparr> \<and>
   trade_sell Off settled_db ''Z'' 1 10 ''yes'' None None = Inl (ValueError ''user not found'') \<and>
   trade_sell Off settled_db ''Z'' 1 10 ''yes'' None None \<noteq> Inl (ValueError ''Market is settled'')"
  by (simp add: trade_sell_def settled_db_def fresh_db_def market_db_def find_user_def
      find_market_def budget_given_def)

section \<open>What a committed trade changes\<close>

lemma one_plus_exp_nonzero: "1 + exp (x::real) \<noteq> 0" "exp x + 1 \<noteq> 0"
  using exp_gt_zero [of x] by linarith+

lemma lmsr_yes_price_Fin:
  assumes "b \<noteq> 0"
  shows "\<exists>p. lmsr_yes_price (Fin b) (Fin qy) (Fin qn) = Inr (Fin p)"
  using assms
  by (cases "qy / b < qn / b")
    (simp_all add: lmsr_yes_price_def py_max_def pf_sub_def Let_def one_plus_exp_nonzero)

lemma buy_yes_on_fresh_db:
  assumes "0 < q" "q \<le> 1000"
  shows "\<exists>price. trade_buy Off fresh_db ''A'' 1 q ''yes'' None None =
     Inr (bought_db q, \<lparr>r_new_balance = 1000 - cost_real 20 0 0 q ''yes'', r_new_price = price,
                        r_quantity = q, r_order_cost = cost_real 20 0 0 q ''yes''\<rparr>)"
proof -
  define c where "c = cost_real 20 0 0 q ''yes''"
  have c: "0 \<le> c" "c \<le> q"
    using assms cost_real_nonneg [of 20 q 0 0 "''yes''"] cost_real_le_qty [of 20 q 0 0 "''yes''"]
    by (simp_all add: c_def)
  obtain p where p: "lmsr_yes_price (Fin 20) (Fin q) (Fin 0) = Inr (Fin p)"
    using lmsr_yes_price_Fin [of 20 q 0] by auto
  have cost: "lmsr_cost (Fin 20) (Fin 0) (Fin 0) (Fin q) ''yes'' = Inr (Fin c)"
    by (simp add: lmsr_cost_Fin c_def)
  have "trade_buy Off fresh_db ''A'' 1 q ''yes'' None None =
     Inr (bought_db q, \<lparr>r_new_balance = 1000 - c, r_new_price = Fin p,
                        r_quantity = q, r_order_cost = c\<rparr>)"
    using assms c
    by (simp add: trade_buy_def fresh_db_def market_db_def find_user_def
        get_market_bundle_for_update_def find_market_def find_amm_def find_ch_def
        budget_given_def hidden_def get_or_create_position_for_update_def find_position_def
        cost p buy_collateral_def required_collateral_def Let_def flush_rows_def
        write_ledger_def side_price_def bought_db_def c_def [symmetric])
  then show ?thesis by (auto simp: c_def)
qed

lemma expand_bound_low:
  "k \<le> 29 \<Longrightarrow> expand_bound cf budget low (2 ^ k) = Some (Inr (l, h)) \<Longrightarrow> l = low \<or> 1 \<le> l"
proof (induction "29 - k" arbitrary: k low)
  case 0
  then have k: "k = 29" by simp
  have "(1::int) \<le> 2 ^ k" by simp
  then show ?case using "0.prems"(2)
    by (subst (asm) expand_bound.simps) (auto simp: k split: sum.splits if_splits)
next
  case (Suc n)
  then have n: "n = 29 - Suc k" "Suc k \<le> 29" by simp_all
  have p: "(1::int) \<le> 2 ^ k" by simp
  show ?case
  proof (cases "cf (2 ^ k)")
    case (Inl e)
    then show ?thesis using Suc.prems(2) by (subst (asm) expand_bound.simps) simp
  next
    case (Inr val)
    show ?thesis
    proof (cases "over_budget val budget")
      case True
      then show ?thesis using Suc.prems(2) Inr by (subst (asm) expand_bound.simps) simp
    next
      case nob: False
      show ?thesis
      proof (cases "(2::int) ^ k * 2 > 1000000000")
        case True
        then have "l = 2 ^ k"
          using Suc.prems(2) Inr nob by (subst (asm) expand_bound.simps) simp
        then show ?thesis using p by simp
      next
        case False
        then have "expand_bound cf budget (2 ^ k) (2 ^ Suc k) = Some (Inr (l, h))"
          using Suc.prems(2) Inr nob
          by (subst (asm) expand_bound.simps) (simp add: mult.commute)
        from Suc.hyps(1) [OF n this] show ?thesis using p by auto
      qed
    qed
  qed
qed

lemma bisect_ge: "bisect cf budget low high = Inr q \<Longrightarrow> low \<le> q"
proof (induction cf budget low high rule: bisect.induct)
  case (1 cf budget low high)
  show ?case
  proof (cases "low < high")
    case False
    then show ?thesis using "1.prems" by simp
  next
    case True
    define mid where "mid = (low + high + 1) div 2"
    have mid: "low < mid" using True by (simp add: mid_def)
    from "1.prems" True obtain val where cf: "cf mid = Inr val"
      by (subst (asm) bisect.simps) (auto simp: mid_def Let_def split: sum.splits)
    show ?thesis
    proof (cases "over_budget val budget")
      case ob: True
      have "bisect cf budget low (mid - 1) = Inr q"
        using "1.prems" True cf ob by (subst (asm) bisect.simps) (simp add: mid_def [symmetric])
      from "1.IH"(1) [OF True mid_def cf ob this] show ?thesis .
    next
      case nob: False
      have "bisect cf budget mid high = Inr q"
        using "1.prems" True cf nob by (subst (asm) bisect.simps) (simp add: mid_def [symmetric])
      from "1.IH"(2) [OF True mid_def cf nob this] show ?thesis using mid by simp
    qed
  qed
qed

lemma max_int_quantity_for_budget_ge_one:
  assumes "max_int_quantity_for_budget b q_yes q_no side budget mode = Inr q"
  shows "1 \<le> q"
proof -
  let ?cf = "cost_for_qty b q_yes q_no side mode"
  obtain r where r: "expand_bound ?cf budget 0 1 = Some r"
    using expand_bound_returns by blast
  from assms r obtain l h where lh: "r = Inr (l, h)" "l \<noteq> 0" "bisect ?cf budget l h = Inr q"
    by (auto simp: max_int_quantity_for_budget_def split: if_splits sum.splits)
  have "l = 0 \<or> 1 \<le> l"
    using expand_bound_low [of 0 ?cf budget 0 l h] r lh(1) by simp
  then have "1 \<le> l" using lh(2) by simp
  then show ?thesis using bisect_ge [OF lh(3)] by simp
qed

lemma buy_quantity_cases:
  assumes "(if budget_given budget_points
      then ebind (max_int_quantity_for_budget b qy qn side budget ''buy'')
             (\<lambda>q. Inr (real_of_int q))
      else Inr quantity) = Inr qty"
    and "0 < quantity \<or> budget_given budget_points"
  shows "0 < qty" "budget_given budget_points \<longrightarrow> qty \<in> \<int>"
    "\<not> budget_given budget_points \<longrightarrow> qty = quantity"
  using assms max_int_quantity_for_budget_ge_one [of b qy qn side budget "''buy''"]
  by (auto simp: ebind_def split: if_splits sum.splits)

lemma update_first_cong_found:
  "find P xs = Some x \<Longrightarrow> update_first P f xs = update_first P (\<lambda>_. f x) xs"
  by (induction xs) (auto split: if_splits)

lemma update_first_append:
  "find P xs = Some x \<Longrightarrow> update_first P f (xs @ ys) = update_first P f xs @ ys"
  by (induction xs) (auto split: if_splits)

lemma trade_buy_effect:
  assumes "trade_buy mode st username market_id quantity side budget_points is_visible = Inr (st', out)"
  obtains db_user dm amm ch pos qty cost delta extra price where
    "db_user = (case find_user st username of Some u \<Rightarrow> u
                | None \<Rightarrow> \<lparr>u_id = next_id (map u_id (users st)), u_username = username,
                           u_points = 1000\<rparr>)"
    "get_market_bundle_for_update st market_id = Inr (dm, amm, ch)"
    "\<not> m_resolved dm"
    "pos = (case find_position st (u_id db_user) market_id of Some p \<Rightarrow> p
            | None \<Rightarrow> \<lparr>p_market_id = market_id, p_user_id = u_id db_user, p_qYes = 0, p_qNo = 0\<rparr>)"
    "side = ''yes'' \<or> side = ''no''"
    "0 < qty" "budget_given budget_points \<longrightarrow> qty \<in> \<int>"
    "\<not> budget_given budget_points \<longrightarrow> qty = quantity"
    "lmsr_cost (Fin (m_b dm)) (Fin (- a_qYes amm)) (Fin (- a_qNo amm)) (Fin qty) side
       = Inr (Fin cost)"
    "cost \<le> u_points db_user"
    "delta = required_collateral
       (amm\<lparr>a_qYes := a_qYes amm - (if side = ''yes'' then qty else 0),
             a_qNo := a_qNo amm - (if side = ''yes'' then 0 else qty)\<rparr>) - c_points ch"
    "- (1 / 10 ^ 9) \<le> delta"
    "users st' =
       update_first (\<lambda>u. u_username u = username)
         (\<lambda>_. \<lparr>u_id = u_id db_user, u_username = username,
                 u_points = u_points db_user - cost\<rparr>)
         (users st @ (case find_user st username of Some u \<Rightarrow> [] | None \<Rightarrow> [db_user])) @ extra"
    "\<forall>u \<in> set extra. u_points u = 0"
    "amms st' =
       update_first (\<lambda>a. a_market_id a = market_id)
         (\<lambda>_. \<lparr>a_market_id = market_id,
                 a_points = a_points amm + cost - max 0 delta,
                 a_qYes = a_qYes amm - (if side = ''yes'' then qty else 0),
                 a_qNo = a_qNo amm - (if side = ''yes'' then 0 else qty)\<rparr>) (amms st)"
    "chs st' =
       update_first (\<lambda>c. c_market_id c = market_id)
         (\<lambda>_. \<lparr>c_market_id = market_id, c_points = c_points ch + max 0 delta\<rparr>) (chs st)"
    "positions st' =
       update_first (\<lambda>p. p_user_id p = u_id db_user \<and> p_market_id p = market_id)
         (\<lambda>_. \<lparr>p_market_id = market_id, p_user_id = u_id db_user,
                 p_qYes = p_qYes pos + (if side = ''yes'' then qty else 0),
                 p_qNo = p_qNo pos + (if side = ''yes'' then 0 else qty)\<rparr>)
         (positions st @ (case find_position st (u_id db_user) market_id of Some p \<Rightarrow> []
            | None \<Rightarrow> [pos]))"
    "out = \<lparr>r_new_balance = u_points db_user - cost, r_new_price = price,
            r_quantity = qty, r_order_cost = cost\<rparr>"
proof (rule trade_buy_InrD [OF assms])
  fix st1 db_user db_market amm ch st2 pos qty cost amm3 ch1 delta yes_price2
  assume side: "side = ''yes'' \<or> side = ''no''"
    and given: "0 < quantity \<or> budget_given budget_points"
    and u: "(st1, db_user) = (case find_user st username of Some u \<Rightarrow> (st, u)
                       | None \<Rightarrow> get_or_create_user st username 1000)"
    and b: "get_market_bundle_for_update st1 market_id = Inr (db_market, amm, ch)"
    and r: "\<not> m_resolved db_market"
    and p: "(st2, pos) = get_or_create_position_for_update st1 (u_id db_user) market_id"
    and q: "(if budget_given budget_points
      then ebind (max_int_quantity_for_budget (Fin (m_b db_market)) (Fin (- a_qYes amm))
                    (Fin (- a_qNo amm)) side (Fin (the budget_points)) ''buy'')
             (\<lambda>q. Inr (real_of_int q))
      else Inr quantity) = Inr qty"
    and c: "lmsr_cost (Fin (m_b db_market)) (Fin (- a_qYes amm)) (Fin (- a_qNo amm)) (Fin qty) side
       = Inr (Fin cost)"
    and afford: "cost \<le> u_points db_user"
    and col: "buy_collateral
       (if side = ''yes'' then amm\<lparr>a_points := a_points amm + cost, a_qYes := a_qYes amm - qty\<rparr>
        else amm\<lparr>a_points := a_points amm + cost, a_qNo := a_qNo amm - qty\<rparr>) ch
       = Inr (amm3, ch1, delta)"
    and st': "st' = write_ledger mode
       (flush_rows st2 (db_user\<lparr>u_points := u_points db_user - cost\<rparr>)
          (db_market\<lparr>m_amm_points := a_points amm3\<rparr>) amm3 ch1
          (if side = ''yes'' then pos\<lparr>p_qYes := p_qYes pos + qty\<rparr>
           else pos\<lparr>p_qNo := p_qNo pos + qty\<rparr>))
       market_id (u_id db_user) ''trade buy'' ''trade sell'' (- cost) side qty delta True"
    and out: "out = \<lparr>r_new_balance = u_points db_user - cost, r_new_price = side_price side yes_price2,
            r_quantity = qty, r_order_cost = cost\<rparr>"
  note ul = user_lookup_cases [OF u] and pl = position_lookup_cases [OF p]
    and bd = bundle_InrD [OF b] and cl = buy_collateral_InrD [OF col]
    and qc = buy_quantity_cases [OF q given]
  let ?flushed = "flush_rows st2 (db_user\<lparr>u_points := u_points db_user - cost\<rparr>)
          (db_market\<lparr>m_amm_points := a_points amm3\<rparr>) amm3 ch1
          (if side = ''yes'' then pos\<lparr>p_qYes := p_qYes pos + qty\<rparr>
           else pos\<lparr>p_qNo := p_qNo pos + qty\<rparr>)"
  obtain extra where extra: "users st' = users ?flushed @ extra" "\<forall>u \<in> set extra. u_points u = 0"
    using write_ledger_users [of mode ?flushed] st' by blast
  have tabs: "amms st' = amms ?flushed" "chs st' = chs ?flushed"
    "positions st' = positions ?flushed"
    unfolding st' by (rule write_ledger_tables)+
  have 1: "db_user = (case find_user st username of Some u \<Rightarrow> u
                | None \<Rightarrow> \<lparr>u_id = next_id (map u_id (users st)), u_username = username,
                           u_points = 1000\<rparr>)"
    using u by (auto simp: get_or_create_user_def Let_def split: option.splits)
  have 2: "get_market_bundle_for_update st market_id = Inr (db_market, amm, ch)"
    using b bundle_tables [OF ul(2,3,4)] by simp
  have 4: "pos = (case find_position st (u_id db_user) market_id of Some p \<Rightarrow> p
            | None \<Rightarrow> \<lparr>p_market_id = market_id, p_user_id = u_id db_user, p_qYes = 0, p_qNo = 0\<rparr>)"
    using p ul(5)
    by (auto simp: get_or_create_position_for_update_def find_position_def Let_def
        split: option.splits)
  have 11: "delta = required_collateral
       (amm\<lparr>a_qYes := a_qYes amm - (if side = ''yes'' then qty else 0),
             a_qNo := a_qNo amm - (if side = ''yes'' then 0 else qty)\<rparr>) - c_points ch"
    using cl(1) by (simp add: required_collateral_def)
  have rows: "amm3 = \<lparr>a_market_id = market_id,
                 a_points = a_points amm + cost - max 0 delta,
                 a_qYes = a_qYes amm - (if side = ''yes'' then qty else 0),
                 a_qNo = a_qNo amm - (if side = ''yes'' then 0 else qty)\<rparr>"
    "ch1 = \<lparr>c_market_id = market_id, c_points = c_points ch + max 0 delta\<rparr>"
    "(if side = ''yes'' then pos\<lparr>p_qYes := p_qYes pos + qty\<rparr>
           else pos\<lparr>p_qNo := p_qNo pos + qty\<rparr>) =
      \<lparr>p_market_id = market_id, p_user_id = u_id db_user,
                 p_qYes = p_qYes pos + (if side = ''yes'' then qty else 0),
                 p_qNo = p_qNo pos + (if side = ''yes'' then 0 else qty)\<rparr>"
    "db_user\<lparr>u_points := u_points db_user - cost\<rparr> =
      \<lparr>u_id = u_id db_user, u_username = username, u_points = u_points db_user - cost\<rparr>"
    using cl(2,3) bd(5,6) pl(8,9) ul(8)
    by (cases amm; cases ch; cases pos; cases db_user; cases "side = ''yes''"; simp)+
  have 13: "users st' =
       update_first (\<lambda>u. u_username u = username)
         (\<lambda>_. \<lparr>u_id = u_id db_user, u_username = username,
                 u_points = u_points db_user - cost\<rparr>)
         (users st @ (case find_user st username of Some u \<Rightarrow> [] | None \<Rightarrow> [db_user])) @ extra"
  proof -
    have "users ?flushed = update_first (\<lambda>u. u_username u = username)
         (\<lambda>_. \<lparr>u_id = u_id db_user, u_username = username,
                 u_points = u_points db_user - cost\<rparr>) (users st1)"
      using pl(5) ul(8) by (simp add: flush_rows_def rows(4))
    moreover have "users st1 =
        users st @ (case find_user st username of Some u \<Rightarrow> [] | None \<Rightarrow> [db_user])"
      using ul(7) 1 by (simp split: option.splits)
    ultimately show ?thesis using extra(1) by simp
  qed
  have 15: "amms st' =
       update_first (\<lambda>a. a_market_id a = market_id)
         (\<lambda>_. \<lparr>a_market_id = market_id,
                 a_points = a_points amm + cost - max 0 delta,
                 a_qYes = a_qYes amm - (if side = ''yes'' then qty else 0),
                 a_qNo = a_qNo amm - (if side = ''yes'' then 0 else qty)\<rparr>) (amms st)"
    using tabs(1) pl(3) ul(3)
    by (simp add: flush_rows_def rows(1))
  have 16: "chs st' =
       update_first (\<lambda>c. c_market_id c = market_id)
         (\<lambda>_. \<lparr>c_market_id = market_id, c_points = c_points ch + max 0 delta\<rparr>) (chs st)"
    using tabs(2) pl(4) ul(4)
    by (simp add: flush_rows_def rows(2))
  have 17: "positions st' =
       update_first (\<lambda>p. p_user_id p = u_id db_user \<and> p_market_id p = market_id)
         (\<lambda>_. \<lparr>p_market_id = market_id, p_user_id = u_id db_user,
                 p_qYes = p_qYes pos + (if side = ''yes'' then qty else 0),
                 p_qNo = p_qNo pos + (if side = ''yes'' then 0 else qty)\<rparr>)
         (positions st @ (case find_position st (u_id db_user) market_id of Some p \<Rightarrow> []
            | None \<Rightarrow> [pos]))"
  proof -
    have fp: "find_position st1 (u_id db_user) market_id
        = find_position st (u_id db_user) market_id"
      using ul(5) by (simp add: find_position_def)
    have "positions st2 = positions st @
        (case find_position st (u_id db_user) market_id of Some p \<Rightarrow> [] | None \<Rightarrow> [pos])"
      using pl(7) ul(5) 4 unfolding fp by (simp split: option.splits)
    then show ?thesis using tabs(3) pl(8,9) by (simp add: flush_rows_def rows(3))
  qed
  show thesis
    using 1 2 r 4 side qc c afford 11 cl(5) 13 extra(2) 15 16 17 out
    by (rule that)
qed

lemma sell_quantity_cases:
  assumes "(if budget_given budget_points
      then ebind (max_int_quantity_for_budget b qy qn side budget ''sell'')
             (\<lambda>q. Inr (real_of_int (min q \<lfloor>available\<rfloor>)))
      else Inr quantity) = Inr qty"
  shows "budget_given budget_points \<longrightarrow> qty \<in> \<int>"
    "\<not> budget_given budget_points \<longrightarrow> qty = quantity"
  using assms by (auto simp: ebind_def split: if_splits sum.splits)

lemma pf_neg_Fin: "pf_neg c = Fin p \<Longrightarrow> c = Fin (- p)"
  by (cases c) auto

lemma trade_sell_effect:
  assumes "trade_sell mode st username market_id quantity side budget_points is_visible = Inr (st', out)"
  obtains db_user dm amm ch pos qty payout delta extra price where
    "find_user st username = Some db_user"
    "get_market_bundle_for_update st market_id = Inr (dm, amm, ch)"
    "\<not> m_resolved dm"
    "find_position st (u_id db_user) market_id = Some pos"
    "side = ''yes'' \<or> side = ''no''"
    "0 < qty" "qty \<le> (if side = ''yes'' then p_qYes pos else p_qNo pos)"
    "budget_given budget_points \<longrightarrow> qty \<in> \<int>"
    "\<not> budget_given budget_points \<longrightarrow> qty = quantity"
    "lmsr_cost (Fin (m_b dm)) (Fin (- a_qYes amm)) (Fin (- a_qNo amm)) (Fin (- qty)) side
       = Inr (Fin (- payout))"
    "payout \<le> a_points amm"
    "delta = c_points ch - required_collateral
       (amm\<lparr>a_qYes := a_qYes amm + (if side = ''yes'' then qty else 0),
             a_qNo := a_qNo amm + (if side = ''yes'' then 0 else qty)\<rparr>)"
    "- (1 / 10 ^ 9) \<le> delta"
    "users st' =
       update_first (\<lambda>u. u_username u = username)
         (\<lambda>_. \<lparr>u_id = u_id db_user, u_username = username,
                 u_points = u_points db_user + payout\<rparr>) (users st) @ extra"
    "\<forall>u \<in> set extra. u_points u = 0"
    "amms st' =
       update_first (\<lambda>a. a_market_id a = market_id)
         (\<lambda>_. \<lparr>a_market_id = market_id,
                 a_points = a_points amm - payout + max 0 delta,
                 a_qYes = a_qYes amm + (if side = ''yes'' then qty else 0),
                 a_qNo = a_qNo amm + (if side = ''yes'' then 0 else qty)\<rparr>) (amms st)"
    "chs st' =
       update_first (\<lambda>c. c_market_id c = market_id)
         (\<lambda>_. \<lparr>c_market_id = market_id, c_points = c_points ch - max 0 delta\<rparr>) (chs st)"
    "positions st' =
       update_first (\<lambda>p. p_user_id p = u_id db_user \<and> p_market_id p = market_id)
         (\<lambda>_. \<lparr>p_market_id = market_id, p_user_id = u_id db_user,
                 p_qYes = p_qYes pos - (if side = ''yes'' then qty else 0),
                 p_qNo = p_qNo pos - (if side = ''yes'' then 0 else qty)\<rparr>) (positions st)"
    "out = \<lparr>r_new_balance = u_points db_user + payout, r_new_price = price,
            r_quantity = qty, r_order_cost = payout\<rparr>"
proof (rule trade_sell_InrD [OF assms])
  fix db_user db_market amm ch pos qty cost payout amm3 ch1 delta yes_price2
  assume side: "side = ''yes'' \<or> side = ''no''"
    and u: "find_user st username = Some db_user"
    and b: "get_market_bundle_for_update st market_id = Inr (db_market, amm, ch)"
    and r: "\<not> m_resolved db_market"
    and p: "find_position st (u_id db_user) market_id = Some pos"
    and q: "(if budget_given budget_points
      then ebind (max_int_quantity_for_budget (Fin (m_b db_market)) (Fin (- a_qYes amm))
                    (Fin (- a_qNo amm)) side (Fin (the budget_points)) ''sell'')
             (\<lambda>q. Inr (real_of_int (min q \<lfloor>if side = ''yes'' then p_qYes pos else p_qNo pos\<rfloor>)))
      else Inr quantity) = Inr qty"
    and qpos: "0 < qty"
    and held: "qty \<le> (if side = ''yes'' then p_qYes pos else p_qNo pos)"
    and c: "lmsr_cost (Fin (m_b db_market)) (Fin (- a_qYes amm)) (Fin (- a_qNo amm)) (Fin (- qty)) side
       = Inr cost"
    and pay: "pf_neg cost = Fin payout"
    and afford: "payout \<le> a_points amm"
    and col: "sell_collateral
       (if side = ''yes'' then amm\<lparr>a_points := a_points amm - payout, a_qYes := a_qYes amm + qty\<rparr>
        else amm\<lparr>a_points := a_points amm - payout, a_qNo := a_qNo amm + qty\<rparr>) ch
       = Inr (amm3, ch1, delta)"
    and st': "st' = write_ledger mode
       (flush_rows st (db_user\<lparr>u_points := u_points db_user + payout\<rparr>)
          (db_market\<lparr>m_amm_points := a_points amm3\<rparr>) amm3 ch1
          (if side = ''yes'' then pos\<lparr>p_qYes := p_qYes pos - qty\<rparr>
           else pos\<lparr>p_qNo := p_qNo pos - qty\<rparr>))
       market_id (u_id db_user) ''trade sell'' ''trade buy'' payout side qty delta False"
    and out: "out = \<lparr>r_new_balance = u_points db_user + payout, r_new_price = side_price side yes_price2,
            r_quantity = qty, r_order_cost = payout\<rparr>"
  note bd = bundle_InrD [OF b] and cl = sell_collateral_InrD [OF col]
    and qc = sell_quantity_cases [OF q]
  let ?flushed = "flush_rows st (db_user\<lparr>u_points := u_points db_user + payout\<rparr>)
          (db_market\<lparr>m_amm_points := a_points amm3\<rparr>) amm3 ch1
          (if side = ''yes'' then pos\<lparr>p_qYes := p_qYes pos - qty\<rparr>
           else pos\<lparr>p_qNo := p_qNo pos - qty\<rparr>)"
  obtain extra where extra: "users st' = users ?flushed @ extra" "\<forall>u \<in> set extra. u_points u = 0"
    using write_ledger_users [of mode ?flushed] st' by blast
  have tabs: "amms st' = amms ?flushed" "chs st' = chs ?flushed"
    "positions st' = positions ?flushed"
    unfolding st' by (rule write_ledger_tables)+
  have un: "u_username db_user = username"
    using u by (auto simp: find_user_def dest: find_SomeD)
  have pk: "p_user_id pos = u_id db_user" "p_market_id pos = market_id"
    using p by (auto simp: find_position_def dest: find_SomeD)
  have 10: "lmsr_cost (Fin (m_b db_market)) (Fin (- a_qYes amm)) (Fin (- a_qNo amm)) (Fin (- qty)) side
       = Inr (Fin (- payout))"
    using c pf_neg_Fin [OF pay] by simp
  have 12: "delta = c_points ch - required_collateral
       (amm\<lparr>a_qYes := a_qYes amm + (if side = ''yes'' then qty else 0),
             a_qNo := a_qNo amm + (if side = ''yes'' then 0 else qty)\<rparr>)"
    using cl(1) by (simp add: required_collateral_def)
  have rows: "amm3 = \<lparr>a_market_id = market_id,
                 a_points = a_points amm - payout + max 0 delta,
                 a_qYes = a_qYes amm + (if side = ''yes'' then qty else 0),
                 a_qNo = a_qNo amm + (if side = ''yes'' then 0 else qty)\<rparr>"
    "ch1 = \<lparr>c_market_id = market_id, c_points = c_points ch - max 0 delta\<rparr>"
    "(if side = ''yes'' then pos\<lparr>p_qYes := p_qYes pos - qty\<rparr>
           else pos\<lparr>p_qNo := p_qNo pos - qty\<rparr>) =
      \<lparr>p_market_id = market_id, p_user_id = u_id db_user,
                 p_qYes = p_qYes pos - (if side = ''yes'' then qty else 0),
                 p_qNo = p_qNo pos - (if side = ''yes'' then 0 else qty)\<rparr>"
    "db_user\<lparr>u_points := u_points db_user + payout\<rparr> =
      \<lparr>u_id = u_id db_user, u_username = username, u_points = u_points db_user + payout\<rparr>"
    using cl(2,3) bd(5,6) pk un
    by (cases amm; cases ch; cases pos; cases db_user; cases "side = ''yes''"; simp)+
  have 14: "users st' =
       update_first (\<lambda>u. u_username u = username)
         (\<lambda>_. \<lparr>u_id = u_id db_user, u_username = username,
                 u_points = u_points db_user + payout\<rparr>) (users st) @ extra"
    using extra(1) un by (simp add: flush_rows_def rows(4))
  have 16: "amms st' =
       update_first (\<lambda>a. a_market_id a = market_id)
         (\<lambda>_. \<lparr>a_market_id = market_id,
                 a_points = a_points amm - payout + max 0 delta,
                 a_qYes = a_qYes amm + (if side = ''yes'' then qty else 0),
                 a_qNo = a_qNo amm + (if side = ''yes'' then 0 else qty)\<rparr>) (amms st)"
    using tabs(1) by (simp add: flush_rows_def rows(1))
  have 17: "chs st' =
       update_first (\<lambda>c. c_market_id c = market_id)
         (\<lambda>_. \<lparr>c_market_id = market_id, c_points = c_points ch - max 0 delta\<rparr>) (chs st)"
    using tabs(2) by (simp add: flush_rows_def rows(2))
  have 18: "positions st' =
       update_first (\<lambda>p. p_user_id p = u_id db_user \<and> p_market_id p = market_id)
         (\<lambda>_. \<lparr>p_market_id = market_id, p_user_id = u_id db_user,
                 p_qYes = p_qYes pos - (if side = ''yes'' then qty else 0),
                 p_qNo = p_qNo pos - (if side = ''yes'' then 0 else qty)\<rparr>) (positions st)"
    using tabs(3) pk by (simp add: flush_rows_def rows(3))
  show thesis
    using u b r p side qpos held qc 10 afford 12 cl(4) 14 extra(2) 16 17 18 out
    by (rule that)
qed

section \<open>Conservation of points\<close>







lemma user_pair_provisioned:
  "(case find_user (user_init st username pts) username of
      Some u \<Rightarrow> (user_init st username pts, u)
    | None \<Rightarrow> get_or_create_user (user_init st username pts) username pts) =
   (case find_user st username of
      Some u \<Rightarrow> (st, u)
    | None \<Rightarrow> get_or_create_user st username pts)"
  by (auto simp: user_init_def get_or_create_user_def find_user_def find_append Let_def
      split: option.splits)

lemma trade_buy_provisions:
  "trade_buy mode (user_init st username 1000) username market_id quantity side budget_points
     is_visible =
   trade_buy mode st username market_id quantity side budget_points is_visible"
  unfolding trade_buy_def user_pair_provisioned ..









section \<open>Collateral\<close>

lemma map_key_update_first:
  "(\<And>x. P x \<Longrightarrow> key (f x) = key x) \<Longrightarrow> map key (update_first P f xs) = map key xs"
  by (induction xs) auto

lemma find_replace_same:
  "find (\<lambda>x. key x = k) xs = Some old \<Longrightarrow> key r = k \<Longrightarrow>
   find (\<lambda>x. key x = k) (update_first (\<lambda>x. key x = k) (\<lambda>_. r) xs) = Some r"
  by (induction xs) (auto split: if_splits)

lemma fold_max_ge: "(a::nat) \<le> fold max xs a"
proof (induction xs arbitrary: a)
  case Nil
  show ?case by simp
next
  case (Cons x xs)
  have "a \<le> max x a" by simp
  also have "\<dots> \<le> fold max xs (max x a)" by (rule Cons.IH)
  finally show ?case by simp
qed

lemma fold_max_member: "(x::nat) \<in> set xs \<Longrightarrow> x \<le> fold max xs a"
proof (induction xs arbitrary: a)
  case Nil
  then show ?case by simp
next
  case (Cons y ys)
  show ?case
  proof (cases "x = y")
    case True
    have "x \<le> max y a" using True by simp
    also have "\<dots> \<le> fold max ys (max y a)" by (rule fold_max_ge)
    finally show ?thesis by simp
  next
    case False
    then have "x \<in> set ys" using Cons.prems by simp
    then show ?thesis using Cons.IH by simp
  qed
qed

lemma next_id_fresh: "next_id ids \<notin> set ids"
  using fold_max_member [of "next_id ids" ids 0] by (auto simp: next_id_def)

lemma required_collateral_max:
  "required_collateral amm = max (max (- a_qYes amm) (- a_qNo amm)) 0"
  by (simp add: required_collateral_def Let_def max_def)

lemma required_collateral_nonneg: "0 \<le> required_collateral amm"
  by (simp add: required_collateral_max)

lemma required_collateral_row [simp]:
  "required_collateral \<lparr>a_market_id = m, a_points = p, a_qYes = y, a_qNo = n\<rparr> =
     max (max (- y) (- n)) 0"
  by (simp add: required_collateral_max)



lemma find_None_keys: "find (\<lambda>x. key x = k) xs = None \<longleftrightarrow> k \<notin> set (map key xs)"
  by (induction xs) auto









section \<open>Integer contract counts\<close>

lemma in_update_firstD: "x \<in> set (update_first P (\<lambda>_. r) xs) \<Longrightarrow> x = r \<or> x \<in> set xs"
  by (induction xs) (auto split: if_splits)

lemma trade_buy_integral:
  assumes "trade_buy mode st username market_id quantity side budget_points is_visible = Inr (st', out)"
    and "counts_integral st" and "budget_given budget_points \<or> quantity \<in> \<int>"
  shows "counts_integral st'"
proof (rule trade_buy_effect [OF assms(1)])
  fix db_user dm amm ch pos qty cost delta extra price
  assume b: "get_market_bundle_for_update st market_id = Inr (dm, amm, ch)"
    and p: "pos = (case find_position st (u_id db_user) market_id of Some p \<Rightarrow> p
            | None \<Rightarrow> \<lparr>p_market_id = market_id, p_user_id = u_id db_user, p_qYes = 0, p_qNo = 0\<rparr>)"
    and q1: "budget_given budget_points \<longrightarrow> qty \<in> \<int>"
    and q2: "\<not> budget_given budget_points \<longrightarrow> qty = quantity"
    and am: "amms st' =
       update_first (\<lambda>a. a_market_id a = market_id)
         (\<lambda>_. \<lparr>a_market_id = market_id,
                 a_points = a_points amm + cost - max 0 delta,
                 a_qYes = a_qYes amm - (if side = ''yes'' then qty else 0),
                 a_qNo = a_qNo amm - (if side = ''yes'' then 0 else qty)\<rparr>) (amms st)"
    and ps: "positions st' =
       update_first (\<lambda>p. p_user_id p = u_id db_user \<and> p_market_id p = market_id)
         (\<lambda>_. \<lparr>p_market_id = market_id, p_user_id = u_id db_user,
                 p_qYes = p_qYes pos + (if side = ''yes'' then qty else 0),
                 p_qNo = p_qNo pos + (if side = ''yes'' then 0 else qty)\<rparr>)
         (positions st @ (case find_position st (u_id db_user) market_id of Some p \<Rightarrow> []
            | None \<Rightarrow> [pos]))"
  have qty: "qty \<in> \<int>" using q1 q2 assms(3) by auto
  have "amm \<in> set (amms st)"
    using bundle_InrD(2) [OF b] by (auto simp: find_amm_def dest: find_SomeD)
  then have ai: "a_qYes amm \<in> \<int>" "a_qNo amm \<in> \<int>"
    using assms(2) by (auto simp: counts_integral_def)
  have pi: "p_qYes pos \<in> \<int>" "p_qNo pos \<in> \<int>"
    using p assms(2)
    by (auto simp: counts_integral_def find_position_def split: option.splits dest: find_SomeD)
  have pn: "\<forall>p \<in> set (positions st @ (case find_position st (u_id db_user) market_id of
        Some p \<Rightarrow> [] | None \<Rightarrow> [pos])). p_qYes p \<in> \<int> \<and> p_qNo p \<in> \<int>"
    using pi assms(2) by (auto simp: counts_integral_def split: option.splits)
  have "\<forall>a \<in> set (amms st'). a_qYes a \<in> \<int> \<and> a_qNo a \<in> \<int>"
    unfolding am using assms(2) ai qty
    by (auto simp: counts_integral_def dest!: in_update_firstD)
  moreover have "\<forall>p \<in> set (positions st'). p_qYes p \<in> \<int> \<and> p_qNo p \<in> \<int>"
  proof
    fix x assume "x \<in> set (positions st')"
    then have "x = \<lparr>p_market_id = market_id, p_user_id = u_id db_user,
                 p_qYes = p_qYes pos + (if side = ''yes'' then qty else 0),
                 p_qNo = p_qNo pos + (if side = ''yes'' then 0 else qty)\<rparr> \<or>
        x \<in> set (positions st @ (case find_position st (u_id db_user) market_id of
        Some p \<Rightarrow> [] | None \<Rightarrow> [pos]))"
      unfolding ps by (rule in_update_firstD)
    then show "p_qYes x \<in> \<int> \<and> p_qNo x \<in> \<int>" using pn pi qty by auto
  qed
  ultimately show ?thesis by (simp add: counts_integral_def)
qed

lemma trade_sell_integral:
  assumes "trade_sell mode st username market_id quantity side budget_points is_visible = Inr (st', out)"
    and "counts_integral st" and "budget_given budget_points \<or> quantity \<in> \<int>"
  shows "counts_integral st'"
proof (rule trade_sell_effect [OF assms(1)])
  fix db_user dm amm ch pos qty payout delta extra price
  assume b: "get_market_bundle_for_update st market_id = Inr (dm, amm, ch)"
    and p: "find_position st (u_id db_user) market_id = Some pos"
    and q1: "budget_given budget_points \<longrightarrow> qty \<in> \<int>"
    and q2: "\<not> budget_given budget_points \<longrightarrow> qty = quantity"
    and am: "amms st' =
       update_first (\<lambda>a. a_market_id a = market_id)
         (\<lambda>_. \<lparr>a_market_id = market_id,
                 a_points = a_points amm - payout + max 0 delta,
                 a_qYes = a_qYes amm + (if side = ''yes'' then qty else 0),
                 a_qNo = a_qNo amm + (if side = ''yes'' then 0 else qty)\<rparr>) (amms st)"
    and ps: "positions st' =
       update_first (\<lambda>p. p_user_id p = u_id db_user \<and> p_market_id p = market_id)
         (\<lambda>_. \<lparr>p_market_id = market_id, p_user_id = u_id db_user,
                 p_qYes = p_qYes pos - (if side = ''yes'' then qty else 0),
                 p_qNo = p_qNo pos - (if side = ''yes'' then 0 else qty)\<rparr>) (positions st)"
  have qty: "qty \<in> \<int>" using q1 q2 assms(3) by auto
  have "amm \<in> set (amms st)"
    using bundle_InrD(2) [OF b] by (auto simp: find_amm_def dest: find_SomeD)
  then have ai: "a_qYes amm \<in> \<int>" "a_qNo amm \<in> \<int>"
    using assms(2) by (auto simp: counts_integral_def)
  have "pos \<in> set (positions st)"
    using p by (auto simp: find_position_def dest: find_SomeD)
  then have pi: "p_qYes pos \<in> \<int>" "p_qNo pos \<in> \<int>"
    using assms(2) by (auto simp: counts_integral_def)
  have "\<forall>a \<in> set (amms st'). a_qYes a \<in> \<int> \<and> a_qNo a \<in> \<int>"
    unfolding am using assms(2) ai qty
    by (auto simp: counts_integral_def dest!: in_update_firstD)
  moreover have "\<forall>p \<in> set (positions st'). p_qYes p \<in> \<int> \<and> p_qNo p \<in> \<int>"
    unfolding ps using assms(2) pi qty
    by (auto simp: counts_integral_def dest!: in_update_firstD)
  ultimately show ?thesis by (simp add: counts_integral_def)
qed

lemma market_init_integral:
  "counts_integral st \<Longrightarrow> counts_integral (fst (market_init st name b))"
  by (auto simp: market_init_def Let_def counts_integral_def split: option.splits)

lemma step_integral:
  assumes "counts_integral st" "integral_request request"
  shows "counts_integral (step mode st request)"
proof (cases request)
  case (Buy u m q s bp vis)
  show ?thesis
  proof (cases "trade_buy mode st u m q s bp vis")
    case (Inl e)
    then show ?thesis using Buy assms by simp
  next
    case (Inr r)
    obtain st' out where r: "r = (st', out)" by (cases r)
    show ?thesis
      using trade_buy_integral [OF Inr [unfolded r] assms(1)] assms(2) Buy Inr r by simp
  qed
next
  case (Sell u m q s bp vis)
  show ?thesis
  proof (cases "trade_sell mode st u m q s bp vis")
    case (Inl e)
    then show ?thesis using Sell assms by simp
  next
    case (Inr r)
    obtain st' out where r: "r = (st', out)" by (cases r)
    show ?thesis
      using trade_sell_integral [OF Inr [unfolded r] assms(1)] assms(2) Sell Inr r by simp
  qed
next
  case (Settle mid outcome)
  show ?thesis
  proof (cases "settlement st mid outcome")
    case (Inl e)
    then show ?thesis using Settle assms by simp
  next
    case (Inr st')
    have "counts_integral st'"
      using assms(1) by (subst settlement_InrD(3) [OF Inr]) (simp add: counts_integral_def)
    then show ?thesis using Settle Inr by simp
  qed
next
  case (NewMarket name b)
  then show ?thesis using market_init_integral [OF assms(1)] by simp
next
  case (NewUser name pts)
  then show ?thesis using assms(1)
    by (auto simp: user_init_def counts_integral_def split: option.splits)
qed

lemma run_integral:
  "counts_integral st \<Longrightarrow> \<forall>request \<in> set requests. integral_request request \<Longrightarrow>
   counts_integral (run mode st requests)"
  unfolding run_def
  by (induction requests arbitrary: st) (simp_all add: step_integral)

lemma trade_buy_quantity:
  assumes "trade_buy mode st username market_id quantity side budget_points is_visible = Inr (st', out)"
  shows "(budget_given budget_points \<longrightarrow> r_quantity out \<in> \<int>) \<and>
         (\<not> budget_given budget_points \<longrightarrow> r_quantity out = quantity)"
proof (rule trade_buy_effect [OF assms])
  fix db_user qty cost price
  assume "budget_given budget_points \<longrightarrow> qty \<in> \<int>"
    "\<not> budget_given budget_points \<longrightarrow> qty = quantity"
    "out = \<lparr>r_new_balance = u_points db_user - cost, r_new_price = price,
            r_quantity = qty, r_order_cost = cost\<rparr>"
  then show ?thesis by simp
qed

lemma trade_sell_quantity:
  assumes "trade_sell mode st username market_id quantity side budget_points is_visible = Inr (st', out)"
  shows "(budget_given budget_points \<longrightarrow> r_quantity out \<in> \<int>) \<and>
         (\<not> budget_given budget_points \<longrightarrow> r_quantity out = quantity)"
proof (rule trade_sell_effect [OF assms])
  fix db_user qty payout price
  assume "budget_given budget_points \<longrightarrow> qty \<in> \<int>"
    "\<not> budget_given budget_points \<longrightarrow> qty = quantity"
    "out = \<lparr>r_new_balance = u_points db_user + payout, r_new_price = price,
            r_quantity = qty, r_order_cost = payout\<rparr>"
  then show ?thesis by simp
qed

text \<open>
  C7 (amended). A budget-driven buy or sell always trades an integer quantity; a
  quantity-driven one trades exactly the quantity the caller supplied. So when every
  request is budget-driven or carries an integer quantity, the counts of all positions
  and AMM inventories stay integers after every committed operation.
\<close>

theorem contract_counts_integral_for_integral_requests:
  assumes "counts_integral st"
    and "\<forall>request \<in> set requests. integral_request request"
  shows "counts_integral (run mode st requests) \<and>
    (trade_buy mode st username market_id quantity side budget_points is_visible = Inr (st1, out1) \<longrightarrow>
       (budget_given budget_points \<longrightarrow> r_quantity out1 \<in> \<int>) \<and>
       (\<not> budget_given budget_points \<longrightarrow> r_quantity out1 = quantity)) \<and>
    (trade_sell mode st username market_id quantity side budget_points is_visible = Inr (st2, out2) \<longrightarrow>
       (budget_given budget_points \<longrightarrow> r_quantity out2 \<in> \<int>) \<and>
       (\<not> budget_given budget_points \<longrightarrow> r_quantity out2 = quantity))"
proof (intro conjI impI)
  show "counts_integral (run mode st requests)" by (rule run_integral [OF assms])
next
  assume b: "trade_buy mode st username market_id quantity side budget_points is_visible
    = Inr (st1, out1)"
  show "budget_given budget_points \<Longrightarrow> r_quantity out1 \<in> \<int>"
    and "\<not> budget_given budget_points \<Longrightarrow> r_quantity out1 = quantity"
    using trade_buy_quantity [OF b] by simp_all
next
  assume s: "trade_sell mode st username market_id quantity side budget_points is_visible
    = Inr (st2, out2)"
  show "budget_given budget_points \<Longrightarrow> r_quantity out2 \<in> \<int>"
    and "\<not> budget_given budget_points \<Longrightarrow> r_quantity out2 = quantity"
    using trade_sell_quantity [OF s] by simp_all
qed

lemma five_halves_not_integer: "(5 / 2 :: real) \<notin> \<int>"
proof
  assume "(5 / 2 :: real) \<in> \<int>"
  then obtain k :: int where "5 / 2 = real_of_int k" by (auto elim: Ints_cases)
  then have "real_of_int (2 * k) = real_of_int 5" by simp
  then have "2 * k = 5" by (simp only: of_int_eq_iff)
  then show False by presburger
qed

theorem contract_counts_integral_for_integral_requests_witness:
  "counts_integral fresh_db \<and>
   counts_integral (run Off fresh_db [Buy ''A'' 1 10 ''yes'' None None]) \<and>
   run Off fresh_db [Buy ''A'' 1 10 ''yes'' None None] = bought_db 10"
proof -
  have c: "counts_integral fresh_db"
    by (simp add: counts_integral_def fresh_db_def market_db_def)
  have i: "\<forall>request \<in> set [Buy ''A'' 1 10 ''yes'' None None]. integral_request request"
    by simp
  have b: "run Off fresh_db [Buy ''A'' 1 10 ''yes'' None None] = bought_db 10"
    using buy_yes_on_fresh_db [of 10] by (auto simp: run_def)
  show ?thesis
    using contract_counts_integral_for_integral_requests [OF c i, of Off] c b by simp
qed

text \<open>
  C7 as stated fails: a buy of 2.5 YES contracts on the fresh market is committed and
  leaves A with a position of 2.5 contracts.
\<close>

theorem fractional_quantity_is_traded:
  "step Off fresh_db (Buy ''A'' 1 (5 / 2) ''yes'' None None) = bought_db (5 / 2) \<and>
   positions (bought_db (5 / 2)) =
     [\<lparr>p_market_id = 1, p_user_id = 1, p_qYes = 5 / 2, p_qNo = 0\<rparr>] \<and>
   (5 / 2 :: real) \<notin> \<int>"
proof -
  have "step Off fresh_db (Buy ''A'' 1 (5 / 2) ''yes'' None None) = bought_db (5 / 2)"
    using buy_yes_on_fresh_db [of "5 / 2"] by auto
  then show ?thesis
    using five_halves_not_integer by (simp add: bought_db_def Let_def)
qed

section \<open>Unknown users and budget-driven sells\<close>

lemma trade_buy_new_user_row:
  assumes "trade_buy mode st username market_id quantity side budget_points is_visible = Inr (st', out)"
    and "find_user st username = None"
  shows "find_user st' username =
      Some \<lparr>u_id = next_id (map u_id (users st)), u_username = username,
             u_points = 1000 - r_order_cost out\<rparr>"
    and "r_new_balance out = 1000 - r_order_cost out"
proof -
  have "find_user st' username =
      Some \<lparr>u_id = next_id (map u_id (users st)), u_username = username,
             u_points = 1000 - r_order_cost out\<rparr> \<and>
    r_new_balance out = 1000 - r_order_cost out"
  proof (rule trade_buy_effect [OF assms(1)])
    fix db_user qty cost extra price
    assume du: "db_user = (case find_user st username of Some u \<Rightarrow> u
                | None \<Rightarrow> \<lparr>u_id = next_id (map u_id (users st)), u_username = username,
                           u_points = 1000\<rparr>)"
      and us: "users st' =
       update_first (\<lambda>u. u_username u = username)
         (\<lambda>_. \<lparr>u_id = u_id db_user, u_username = username,
                 u_points = u_points db_user - cost\<rparr>)
         (users st @ (case find_user st username of Some u \<Rightarrow> [] | None \<Rightarrow> [db_user])) @ extra"
      and out: "out = \<lparr>r_new_balance = u_points db_user - cost, r_new_price = price,
            r_quantity = qty, r_order_cost = cost\<rparr>"
    have d: "db_user = \<lparr>u_id = next_id (map u_id (users st)), u_username = username,
                           u_points = 1000\<rparr>"
      using du assms(2) by simp
    have f: "find (\<lambda>u. u_username u = username) (users st @ [db_user]) = Some db_user"
      using assms(2) d by (simp add: find_append find_user_def)
    have "find (\<lambda>u. u_username u = username)
        (update_first (\<lambda>u. u_username u = username)
         (\<lambda>_. \<lparr>u_id = u_id db_user, u_username = username,
                 u_points = u_points db_user - cost\<rparr>) (users st @ [db_user]))
        = Some \<lparr>u_id = u_id db_user, u_username = username,
                 u_points = u_points db_user - cost\<rparr>"
      by (rule find_replace_same [OF f]) simp
    then have "find_user st' username = Some \<lparr>u_id = u_id db_user, u_username = username,
                 u_points = u_points db_user - cost\<rparr>"
      using us assms(2) by (simp add: find_user_def find_append)
    then show ?thesis using d out by simp
  qed
  then show "find_user st' username =
      Some \<lparr>u_id = next_id (map u_id (users st)), u_username = username,
             u_points = 1000 - r_order_cost out\<rparr>"
    and "r_new_balance out = 1000 - r_order_cost out" by simp_all
qed

lemma trade_sell_unknown_user:
  assumes "find_user st username = None"
  shows "trade_sell mode st username market_id quantity side budget_points is_visible \<noteq> Inr r"
    and "(side = ''yes'' \<or> side = ''no'') \<Longrightarrow> (0 < quantity \<or> budget_given budget_points) \<Longrightarrow>
       trade_sell mode st username market_id quantity side budget_points is_visible
         = Inl (ValueError ''user not found'')"
  using assms by (auto simp: trade_sell_def)

text \<open>
  C9 (amended). For a username without a user row, a buy runs exactly as on the database
  in which that user has been created with the starting balance of 1000 points, and a
  committed buy leaves the user with 1000 minus the order cost. A sell for such a username
  never succeeds: it fails with "user not found" (when the arguments pass the checks) and
  creates no user.
\<close>

theorem unknown_user_created_by_buy_only:
  assumes "find_user st username = None"
  shows
    "trade_buy mode st username market_id quantity side budget_points is_visible =
       trade_buy mode (user_init st username 1000) username market_id quantity side
         budget_points is_visible \<and>
     find_user (user_init st username 1000) username =
       Some \<lparr>u_id = next_id (map u_id (users st)), u_username = username, u_points = 1000\<rparr> \<and>
     (trade_buy mode st username market_id quantity side budget_points is_visible
        = Inr (st', out) \<longrightarrow>
      find_user st' username =
        Some \<lparr>u_id = next_id (map u_id (users st)), u_username = username,
               u_points = 1000 - r_order_cost out\<rparr> \<and>
      r_new_balance out = 1000 - r_order_cost out) \<and>
     trade_sell mode st username market_id quantity side budget_points is_visible \<noteq> Inr r \<and>
     ((side = ''yes'' \<or> side = ''no'') \<and> (0 < quantity \<or> budget_given budget_points) \<longrightarrow>
       trade_sell mode st username market_id quantity side budget_points is_visible
         = Inl (ValueError ''user not found'')) \<and>
     step mode st (Sell username market_id quantity side budget_points is_visible) = st"
proof (intro conjI impI)
  show "trade_buy mode st username market_id quantity side budget_points is_visible =
       trade_buy mode (user_init st username 1000) username market_id quantity side
         budget_points is_visible"
    by (rule trade_buy_provisions [symmetric])
  show "find_user (user_init st username 1000) username =
       Some \<lparr>u_id = next_id (map u_id (users st)), u_username = username, u_points = 1000\<rparr>"
    using assms by (simp add: user_init_def find_user_def find_append)
  show "trade_sell mode st username market_id quantity side budget_points is_visible \<noteq> Inr r"
    by (rule trade_sell_unknown_user(1) [OF assms])
  show "step mode st (Sell username market_id quantity side budget_points is_visible) = st"
    using trade_sell_unknown_user(1) [OF assms, of mode market_id quantity side budget_points
        is_visible]
    by (auto split: sum.splits)
next
  assume "(side = ''yes'' \<or> side = ''no'') \<and> (0 < quantity \<or> budget_given budget_points)"
  then show "trade_sell mode st username market_id quantity side budget_points is_visible
         = Inl (ValueError ''user not found'')"
    using trade_sell_unknown_user(2) [OF assms] by blast
next
  assume b: "trade_buy mode st username market_id quantity side budget_points is_visible
        = Inr (st', out)"
  show "find_user st' username =
        Some \<lparr>u_id = next_id (map u_id (users st)), u_username = username,
               u_points = 1000 - r_order_cost out\<rparr>"
    and "r_new_balance out = 1000 - r_order_cost out"
    using trade_buy_new_user_row [OF b assms] by simp_all
qed

theorem unknown_user_created_by_buy_only_witness:
  "find_user market_db ''A'' = None \<and>
   step Off market_db (Buy ''A'' 1 10 ''yes'' None None) = bought_db 10 \<and>
   find_user (bought_db 10) ''A'' =
     Some \<lparr>u_id = 1, u_username = ''A'', u_points = 1000 - cost_real 20 0 0 10 ''yes''\<rparr>"
proof -
  have n: "find_user market_db ''A'' = None"
    by (simp add: market_db_def find_user_def)
  have "user_init market_db ''A'' 1000 = fresh_db"
    by (simp add: fresh_db_def market_db_def user_init_def find_user_def next_id_def)
  then have "trade_buy Off market_db ''A'' 1 10 ''yes'' None None =
      trade_buy Off fresh_db ''A'' 1 10 ''yes'' None None"
    using unknown_user_created_by_buy_only [OF n, of Off 1 10 "''yes''" None None] by simp
  then have "step Off market_db (Buy ''A'' 1 10 ''yes'' None None) = bought_db 10"
    using buy_yes_on_fresh_db [of 10] by auto
  moreover have "find_user (bought_db 10) ''A'' =
     Some \<lparr>u_id = 1, u_username = ''A'', u_points = 1000 - cost_real 20 0 0 10 ''yes''\<rparr>"
    by (simp add: bought_db_def find_user_def Let_def)
  ultimately show ?thesis using n by simp
qed

text \<open>
  C9 as stated fails: on the fresh market without users, the sell requested by A fails
  with "user not found" and no user row exists afterwards.
\<close>

theorem sell_by_unknown_user_fails:
  "find_user market_db ''A'' = None \<and>
   trade_sell Off market_db ''A'' 1 10 ''yes'' None None = Inl (ValueError ''user not found'') \<and>
   users (step Off market_db (Sell ''A'' 1 10 ''yes'' None None)) = []"
  by (simp add: trade_sell_def market_db_def find_user_def budget_given_def)






section \<open>Round trip\<close>








section \<open>Settlement\<close>

lemma update_first_distinct:
  "distinct (map key xs) \<Longrightarrow>
   update_first (\<lambda>x. key x = k) f xs = map (\<lambda>x. if key x = k then f x else x) xs"
proof (induction xs)
  case Nil
  show ?case by simp
next
  case (Cons x xs)
  show ?case
  proof (cases "key x = k")
    case True
    then have "\<forall>y \<in> set xs. key y \<noteq> k" using Cons.prems by (auto simp: image_iff)
    then have "map (\<lambda>x. if key x = k then f x else x) xs = xs"
      by (intro map_idI) simp
    then show ?thesis using True by simp
  next
    case False
    then show ?thesis using Cons by simp
  qed
qed

lemma filter_unique:
  "distinct (map key xs) \<Longrightarrow>
   filter (\<lambda>x. key x = k) xs = (case find (\<lambda>x. key x = k) xs of None \<Rightarrow> [] | Some x \<Rightarrow> [x])"
proof (induction xs)
  case Nil
  show ?case by simp
next
  case (Cons x xs)
  show ?case
  proof (cases "key x = k")
    case True
    then have "\<forall>y \<in> set xs. key y \<noteq> k" using Cons.prems by (auto simp: image_iff)
    then have "filter (\<lambda>x. key x = k) xs = []" by (simp add: filter_empty_conv)
    then show ?thesis using True by simp
  next
    case False
    then show ?thesis using Cons by simp
  qed
qed

lemma credit_Nil [simp]: "credit outcome [] user_id = 0"
  by (simp add: credit_def)

lemma credit_Cons:
  "credit outcome (pos # ps) user_id =
     (if p_user_id pos = user_id then max 0 (winning_count outcome pos) else 0) +
     credit outcome ps user_id"
  by (simp add: credit_def)

lemma pay_winners_map:
  "distinct (map u_id us) \<Longrightarrow>
   pay_winners outcome ps us =
     map (\<lambda>u. u\<lparr>u_points := u_points u + credit outcome ps (u_id u)\<rparr>) us"
proof (induction ps arbitrary: us)
  case Nil
  show ?case by (simp add: map_idI)
next
  case (Cons pos ps)
  let ?uid = "p_user_id pos"
  let ?pay = "winning_count outcome pos"
  show ?case
  proof (cases "find (\<lambda>u. u_id u = ?uid) us")
    case None
    then have no: "\<forall>u \<in> set us. u_id u \<noteq> ?uid"
      by (simp add: find_None_iff)
    have "pay_winners outcome (pos # ps) us = pay_winners outcome ps us"
      using None by simp
    also have "\<dots> = map (\<lambda>u. u\<lparr>u_points := u_points u + credit outcome ps (u_id u)\<rparr>) us"
      by (rule Cons.IH [OF Cons.prems])
    also have "\<dots> = map (\<lambda>u. u\<lparr>u_points := u_points u + credit outcome (pos # ps) (u_id u)\<rparr>) us"
      using no by (intro map_cong) (auto simp: credit_Cons)
    finally show ?thesis .
  next
    case (Some user)
    show ?thesis
    proof (cases "?pay > 0")
      case True
      let ?us = "update_first (\<lambda>u. u_id u = ?uid) (\<lambda>u. u\<lparr>u_points := u_points u + ?pay\<rparr>) us"
      have us: "?us = map (\<lambda>u. if u_id u = ?uid then u\<lparr>u_points := u_points u + ?pay\<rparr> else u) us"
        by (rule update_first_distinct [OF Cons.prems])
      have d: "distinct (map u_id ?us)"
        using Cons.prems by (simp add: map_key_update_first)
      have "pay_winners outcome (pos # ps) us = pay_winners outcome ps ?us"
        using Some True by (simp add: winning_count_def Let_def)
      also have "\<dots> = map (\<lambda>u. u\<lparr>u_points := u_points u + credit outcome ps (u_id u)\<rparr>) ?us"
        by (rule Cons.IH [OF d])
      also have "\<dots> = map (\<lambda>u. u\<lparr>u_points := u_points u + credit outcome (pos # ps) (u_id u)\<rparr>) us"
        unfolding us using True by (auto simp: credit_Cons)
      finally show ?thesis .
    next
      case False
      have "pay_winners outcome (pos # ps) us = pay_winners outcome ps us"
        using Some False by (simp add: winning_count_def Let_def)
      also have "\<dots> = map (\<lambda>u. u\<lparr>u_points := u_points u + credit outcome ps (u_id u)\<rparr>) us"
        by (rule Cons.IH [OF Cons.prems])
      also have "\<dots> = map (\<lambda>u. u\<lparr>u_points := u_points u + credit outcome (pos # ps) (u_id u)\<rparr>) us"
        using False by (intro map_cong) (auto simp: credit_Cons)
      finally show ?thesis .
    qed
  qed
qed

lemma credit_unique_position:
  assumes "distinct (map (\<lambda>p. (p_user_id p, p_market_id p)) (positions st))"
    and "\<forall>p \<in> set (positions st). 0 \<le> p_qYes p \<and> 0 \<le> p_qNo p"
  shows "credit outcome (filter (\<lambda>p. p_market_id p = market_id) (positions st)) user_id =
     (case find_position st user_id market_id of None \<Rightarrow> 0
      | Some pos \<Rightarrow> winning_count outcome pos)"
proof -
  have "filter (\<lambda>p. p_user_id p = user_id) (filter (\<lambda>p. p_market_id p = market_id) (positions st))
      = filter (\<lambda>p. (p_user_id p, p_market_id p) = (user_id, market_id)) (positions st)"
    by (simp add: conj_commute)
  also have "\<dots> = (case find (\<lambda>p. (p_user_id p, p_market_id p) = (user_id, market_id))
        (positions st) of None \<Rightarrow> [] | Some x \<Rightarrow> [x])"
    by (rule filter_unique [OF assms(1)])
  also have "find (\<lambda>p. (p_user_id p, p_market_id p) = (user_id, market_id)) (positions st)
      = find_position st user_id market_id"
    by (simp add: find_position_def)
  finally have f: "filter (\<lambda>p. p_user_id p = user_id)
      (filter (\<lambda>p. p_market_id p = market_id) (positions st)) =
      (case find_position st user_id market_id of None \<Rightarrow> [] | Some x \<Rightarrow> [x])" .
  show ?thesis
  proof (cases "find_position st user_id market_id")
    case None
    then show ?thesis using f by (simp add: credit_def)
  next
    case (Some pos)
    then have "pos \<in> set (positions st)"
      by (auto simp: find_position_def dest: find_SomeD)
    then have "0 \<le> winning_count outcome pos"
      using assms(2) by (simp add: winning_count_def)
    then show ?thesis using f Some by (simp add: credit_def)
  qed
qed

lemma map_key_replace_found:
  "find P xs = Some x \<Longrightarrow> key r = key x \<Longrightarrow> map key (update_first P (\<lambda>_. r) xs) = map key xs"
  by (induction xs) (auto split: if_splits)

lemma system_user_distinct:
  assumes "get_or_create_system_user_id st name pts = (st1, uid)"
    and "distinct (map u_id (users st))"
  shows "distinct (map u_id (users st1))"
  using assms next_id_fresh [of "map u_id (users st)"]
  by (auto simp: get_or_create_system_user_id_def Let_def split: option.splits)

lemma system_actor_distinct:
  assumes "get_system_actor_ids st = (st2, ids)" and "distinct (map u_id (users st))"
  shows "distinct (map u_id (users st2))"
proof -
  obtain st1 amm_id where 1: "get_or_create_system_user_id st SYSTEM_AMM_USERNAME 0 = (st1, amm_id)"
    by (cases "get_or_create_system_user_id st SYSTEM_AMM_USERNAME 0")
  obtain st2' ch_id where 2: "get_or_create_system_user_id st1 SYSTEM_CH_USERNAME 0 = (st2', ch_id)"
    by (cases "get_or_create_system_user_id st1 SYSTEM_CH_USERNAME 0")
  have "st2 = st2'" using assms(1) 1 2 by (simp add: get_system_actor_ids_def)
  then show ?thesis
    using system_user_distinct [OF 2 system_user_distinct [OF 1 assms(2)]] by simp
qed

lemma write_ledger_distinct:
  assumes "distinct (map u_id (users st))"
  shows "distinct (map u_id (users (write_ledger mode st mid uid ur ar ud side qty delta ib)))"
proof -
  let ?st1 = "ledger_add st \<lparr>l_market_id = mid, l_user_id = uid, l_reason = ur,
               l_delta = ud, l_side = side, l_amount = Some qty\<rparr>"
  obtain st2 ids where g: "get_system_actor_ids ?st1 = (st2, ids)"
    by (cases "get_system_actor_ids ?st1")
  have u1: "users ?st1 = users st" by (simp add: ledger_add_def)
  have d2: "distinct (map u_id (users st2))"
    using system_actor_distinct [OF g] assms u1 by simp
  show ?thesis
  proof (cases "mode = Full")
    case True
    then have "users (write_ledger mode st mid uid ur ar ud side qty delta ib) = users st2"
      using g by (auto simp: write_ledger_def Let_def ledger_add_def split: prod.splits)
    then show ?thesis using d2 by simp
  next
    case False
    then have "users (write_ledger mode st mid uid ur ar ud side qty delta ib) = users st"
      by (auto simp: write_ledger_def Let_def ledger_add_def)
    then show ?thesis using assms by simp
  qed
qed

lemma trade_buy_user_ids:
  assumes "trade_buy mode st username market_id quantity side budget_points is_visible = Inr (st', out)"
    and "distinct (map u_id (users st))"
  shows "distinct (map u_id (users st'))"
proof (rule trade_buy_InrD [OF assms(1)])
  fix st1 db_user db_market amm ch st2 pos qty cost amm3 ch1 delta yes_price2
  assume u: "(st1, db_user) = (case find_user st username of Some u \<Rightarrow> (st, u)
                       | None \<Rightarrow> get_or_create_user st username 1000)"
    and p: "(st2, pos) = get_or_create_position_for_update st1 (u_id db_user) market_id"
    and st': "st' = write_ledger mode
       (flush_rows st2 (db_user\<lparr>u_points := u_points db_user - cost\<rparr>)
          (db_market\<lparr>m_amm_points := a_points amm3\<rparr>) amm3 ch1
          (if side = ''yes'' then pos\<lparr>p_qYes := p_qYes pos + qty\<rparr>
           else pos\<lparr>p_qNo := p_qNo pos + qty\<rparr>))
       market_id (u_id db_user) ''trade buy'' ''trade sell'' (- cost) side qty delta True"
  note ul = user_lookup_cases [OF u] and pl = position_lookup_cases [OF p]
  have d1: "distinct (map u_id (users st1))"
    using ul(7) assms(2) next_id_fresh [of "map u_id (users st)"]
    by (auto split: option.splits)
  let ?F = "flush_rows st2 (db_user\<lparr>u_points := u_points db_user - cost\<rparr>)
          (db_market\<lparr>m_amm_points := a_points amm3\<rparr>) amm3 ch1
          (if side = ''yes'' then pos\<lparr>p_qYes := p_qYes pos + qty\<rparr>
           else pos\<lparr>p_qNo := p_qNo pos + qty\<rparr>)"
  have "users ?F = update_first (\<lambda>x. u_username x = username)
      (\<lambda>_. db_user\<lparr>u_points := u_points db_user - cost\<rparr>) (users st1)"
    using pl(5) ul(8) by (simp add: flush_rows_def)
  then have "map u_id (users ?F) = map u_id (users st1)"
    using map_key_replace_found [OF ul(1) [unfolded find_user_def], of u_id
        "db_user\<lparr>u_points := u_points db_user - cost\<rparr>"] by simp
  then have "distinct (map u_id (users ?F))" using d1 by simp
  then show ?thesis unfolding st' by (rule write_ledger_distinct)
qed

lemma trade_sell_user_ids:
  assumes "trade_sell mode st username market_id quantity side budget_points is_visible = Inr (st', out)"
    and "distinct (map u_id (users st))"
  shows "distinct (map u_id (users st'))"
proof (rule trade_sell_InrD [OF assms(1)])
  fix db_user db_market amm ch pos qty cost payout amm3 ch1 delta yes_price2
  assume u: "find_user st username = Some db_user"
    and st': "st' = write_ledger mode
       (flush_rows st (db_user\<lparr>u_points := u_points db_user + payout\<rparr>)
          (db_market\<lparr>m_amm_points := a_points amm3\<rparr>) amm3 ch1
          (if side = ''yes'' then pos\<lparr>p_qYes := p_qYes pos - qty\<rparr>
           else pos\<lparr>p_qNo := p_qNo pos - qty\<rparr>))
       market_id (u_id db_user) ''trade sell'' ''trade buy'' payout side qty delta False"
  have un: "u_username db_user = username"
    using u by (auto simp: find_user_def dest: find_SomeD)
  let ?F = "flush_rows st (db_user\<lparr>u_points := u_points db_user + payout\<rparr>)
          (db_market\<lparr>m_amm_points := a_points amm3\<rparr>) amm3 ch1
          (if side = ''yes'' then pos\<lparr>p_qYes := p_qYes pos - qty\<rparr>
           else pos\<lparr>p_qNo := p_qNo pos - qty\<rparr>)"
  have "users ?F = update_first (\<lambda>x. u_username x = username)
      (\<lambda>_. db_user\<lparr>u_points := u_points db_user + payout\<rparr>) (users st)"
    using un by (simp add: flush_rows_def)
  then have "map u_id (users ?F) = map u_id (users st)"
    using map_key_replace_found [OF u [unfolded find_user_def], of u_id
        "db_user\<lparr>u_points := u_points db_user + payout\<rparr>"] by simp
  then have "distinct (map u_id (users ?F))" using assms(2) by simp
  then show ?thesis unfolding st' by (rule write_ledger_distinct)
qed

lemma trade_buy_positions_ok:
  assumes "trade_buy mode st username market_id quantity side budget_points is_visible = Inr (st', out)"
    and "distinct (map (\<lambda>p. (p_user_id p, p_market_id p)) (positions st))"
    and "\<forall>p \<in> set (positions st). 0 \<le> p_qYes p \<and> 0 \<le> p_qNo p"
  shows "distinct (map (\<lambda>p. (p_user_id p, p_market_id p)) (positions st')) \<and>
    (\<forall>p \<in> set (positions st'). 0 \<le> p_qYes p \<and> 0 \<le> p_qNo p)"
proof (rule trade_buy_effect [OF assms(1)])
  fix db_user pos qty
  assume p: "pos = (case find_position st (u_id db_user) market_id of Some p \<Rightarrow> p
            | None \<Rightarrow> \<lparr>p_market_id = market_id, p_user_id = u_id db_user, p_qYes = 0, p_qNo = 0\<rparr>)"
    and qty: "0 < qty"
    and ps: "positions st' =
       update_first (\<lambda>p. p_user_id p = u_id db_user \<and> p_market_id p = market_id)
         (\<lambda>_. \<lparr>p_market_id = market_id, p_user_id = u_id db_user,
                 p_qYes = p_qYes pos + (if side = ''yes'' then qty else 0),
                 p_qNo = p_qNo pos + (if side = ''yes'' then 0 else qty)\<rparr>)
         (positions st @ (case find_position st (u_id db_user) market_id of Some p \<Rightarrow> []
            | None \<Rightarrow> [pos]))"
  let ?L = "positions st @ (case find_position st (u_id db_user) market_id of Some p \<Rightarrow> []
            | None \<Rightarrow> [pos])"
  let ?key = "\<lambda>p. (p_user_id p, p_market_id p)"
  have dL: "distinct (map ?key ?L)"
  proof (cases "find_position st (u_id db_user) market_id")
    case None
    then have "(u_id db_user, market_id) \<notin> set (map ?key (positions st))"
      using find_None_keys [of ?key "(u_id db_user, market_id)" "positions st"]
      by (simp add: find_position_def)
    then show ?thesis using None assms(2) p by simp
  next
    case (Some x)
    then show ?thesis using assms(2) by simp
  qed
  have nL: "\<forall>p \<in> set ?L. 0 \<le> p_qYes p \<and> 0 \<le> p_qNo p"
    using assms(3) p by (auto split: option.splits)
  have pn: "0 \<le> p_qYes pos \<and> 0 \<le> p_qNo pos"
    using p assms(3)
    by (auto simp: find_position_def split: option.splits dest: find_SomeD)
  have "map ?key (positions st') = map ?key ?L"
    unfolding ps by (rule map_key_update_first) simp
  then have 1: "distinct (map ?key (positions st'))" using dL by simp
  have 2: "\<forall>p \<in> set (positions st'). 0 \<le> p_qYes p \<and> 0 \<le> p_qNo p"
  proof
    fix x assume "x \<in> set (positions st')"
    then have "x = \<lparr>p_market_id = market_id, p_user_id = u_id db_user,
                 p_qYes = p_qYes pos + (if side = ''yes'' then qty else 0),
                 p_qNo = p_qNo pos + (if side = ''yes'' then 0 else qty)\<rparr> \<or> x \<in> set ?L"
      unfolding ps by (rule in_update_firstD)
    then show "0 \<le> p_qYes x \<and> 0 \<le> p_qNo x" using nL pn qty by auto
  qed
  show ?thesis using 1 2 by simp
qed

lemma trade_sell_positions_ok:
  assumes "trade_sell mode st username market_id quantity side budget_points is_visible = Inr (st', out)"
    and "distinct (map (\<lambda>p. (p_user_id p, p_market_id p)) (positions st))"
    and "\<forall>p \<in> set (positions st). 0 \<le> p_qYes p \<and> 0 \<le> p_qNo p"
  shows "distinct (map (\<lambda>p. (p_user_id p, p_market_id p)) (positions st')) \<and>
    (\<forall>p \<in> set (positions st'). 0 \<le> p_qYes p \<and> 0 \<le> p_qNo p)"
proof (rule trade_sell_effect [OF assms(1)])
  fix db_user pos qty
  assume p: "find_position st (u_id db_user) market_id = Some pos"
    and held: "qty \<le> (if side = ''yes'' then p_qYes pos else p_qNo pos)"
    and ps: "positions st' =
       update_first (\<lambda>p. p_user_id p = u_id db_user \<and> p_market_id p = market_id)
         (\<lambda>_. \<lparr>p_market_id = market_id, p_user_id = u_id db_user,
                 p_qYes = p_qYes pos - (if side = ''yes'' then qty else 0),
                 p_qNo = p_qNo pos - (if side = ''yes'' then 0 else qty)\<rparr>) (positions st)"
  let ?key = "\<lambda>p. (p_user_id p, p_market_id p)"
  have "pos \<in> set (positions st)"
    using p by (auto simp: find_position_def dest: find_SomeD)
  then have pn: "0 \<le> p_qYes pos \<and> 0 \<le> p_qNo pos" using assms(3) by simp
  have "map ?key (positions st') = map ?key (positions st)"
    unfolding ps by (rule map_key_update_first) simp
  then have 1: "distinct (map ?key (positions st'))" using assms(2) by simp
  have 2: "\<forall>p \<in> set (positions st'). 0 \<le> p_qYes p \<and> 0 \<le> p_qNo p"
  proof
    fix x assume "x \<in> set (positions st')"
    then have "x = \<lparr>p_market_id = market_id, p_user_id = u_id db_user,
                 p_qYes = p_qYes pos - (if side = ''yes'' then qty else 0),
                 p_qNo = p_qNo pos - (if side = ''yes'' then 0 else qty)\<rparr> \<or>
        x \<in> set (positions st)"
      unfolding ps by (rule in_update_firstD)
    then show "0 \<le> p_qYes x \<and> 0 \<le> p_qNo x" using assms(3) pn held by (auto split: if_splits)
  qed
  show ?thesis using 1 2 by simp
qed

lemma step_schema_ok:
  assumes "schema_ok st"
  shows "schema_ok (step mode st request)"
proof (cases request)
  case (Buy u m q s bp vis)
  show ?thesis
  proof (cases "trade_buy mode st u m q s bp vis")
    case (Inl e)
    then show ?thesis using Buy assms by simp
  next
    case (Inr r)
    obtain st' out where r: "r = (st', out)" by (cases r)
    have "schema_ok st'"
      using trade_buy_user_ids [OF Inr [unfolded r]] trade_buy_positions_ok [OF Inr [unfolded r]]
        assms by (simp add: schema_ok_def)
    then show ?thesis using Buy Inr r by simp
  qed
next
  case (Sell u m q s bp vis)
  show ?thesis
  proof (cases "trade_sell mode st u m q s bp vis")
    case (Inl e)
    then show ?thesis using Sell assms by simp
  next
    case (Inr r)
    obtain st' out where r: "r = (st', out)" by (cases r)
    have "schema_ok st'"
      using trade_sell_user_ids [OF Inr [unfolded r]] trade_sell_positions_ok [OF Inr [unfolded r]]
        assms by (simp add: schema_ok_def)
    then show ?thesis using Sell Inr r by simp
  qed
next
  case (Settle mid outcome)
  show ?thesis
  proof (cases "settlement st mid outcome")
    case (Inl e)
    then show ?thesis using Settle assms by simp
  next
    case (Inr st')
    have d: "distinct (map u_id (users st))" using assms by (simp add: schema_ok_def)
    have "users st' = pay_winners outcome (filter (\<lambda>p. p_market_id p = mid) (positions st))
        (users st)" "positions st' = positions st"
      by (subst settlement_InrD(3) [OF Inr], simp)+
    then have "map u_id (users st') = map u_id (users st)" "positions st' = positions st"
      by (simp_all add: pay_winners_map [OF d] comp_def)
    then have "schema_ok st'" using assms by (simp add: schema_ok_def)
    then show ?thesis using Settle Inr by simp
  qed
next
  case (NewMarket name b)
  have "users (fst (market_init st name b)) = users st"
    "positions (fst (market_init st name b)) = positions st"
    by (auto simp: market_init_def Let_def split: option.splits)
  then show ?thesis using NewMarket assms by (simp add: schema_ok_def)
next
  case (NewUser name pts)
  have "positions (user_init st name pts) = positions st"
    by (simp add: user_init_def split: option.splits)
  moreover have "distinct (map u_id (users (user_init st name pts)))"
    using assms next_id_fresh [of "map u_id (users st)"]
    by (auto simp: user_init_def schema_ok_def split: option.splits)
  ultimately show ?thesis using NewUser assms by (simp add: schema_ok_def)
qed

lemma run_schema_ok: "schema_ok st \<Longrightarrow> schema_ok (run mode st requests)"
  unfolding run_def
  by (induction requests arbitrary: st) (simp_all add: step_schema_ok)

lemma empty_db_schema_ok: "schema_ok empty_db"
  by (simp add: schema_ok_def empty_db_def)

text \<open>
  C4. In a database that satisfies the constraints of the schema (every database reached
  from the empty one does, \<open>run_schema_ok\<close> and \<open>empty_db_schema_ok\<close>), a settlement that
  is committed increases the balance of every user by exactly the count of the winning
  side of that user's position in the market (\<open>qYes\<close> for outcome "yes", \<open>qNo\<close>
  otherwise), leaves the balance of a user without a position as it was, changes nothing
  in the AMM, clearing-house, position and ledger tables, and marks the market resolved
  with the outcome.
\<close>

theorem settlement_pays_winning_counts:
  assumes "settlement st market_id outcome = Inr st'" and "schema_ok st"
  shows "users st' =
      map (\<lambda>u. u\<lparr>u_points := u_points u +
                 (case find_position st (u_id u) market_id of None \<Rightarrow> 0
                  | Some pos \<Rightarrow> winning_count outcome pos)\<rparr>) (users st) \<and>
    amms st' = amms st \<and> chs st' = chs st \<and> positions st' = positions st \<and>
    ledger st' = ledger st \<and>
    (\<exists>m. find_market st market_id = Some m \<and> \<not> m_resolved m \<and>
       find_market st' market_id =
         Some (m\<lparr>m_resolved := True, m_outcome := Some (outcome = ''yes'')\<rparr>))"
proof -
  note s = settlement_InrD [OF assms(1)]
  have d: "distinct (map u_id (users st))"
    and dp: "distinct (map (\<lambda>p. (p_user_id p, p_market_id p)) (positions st))"
    and nn: "\<forall>p \<in> set (positions st). 0 \<le> p_qYes p \<and> 0 \<le> p_qNo p"
    using assms(2) by (simp_all add: schema_ok_def)
  have "users st' = pay_winners outcome (filter (\<lambda>p. p_market_id p = market_id) (positions st))
      (users st)"
    by (subst s(3)) simp
  also have "\<dots> = map (\<lambda>u. u\<lparr>u_points := u_points u +
      credit outcome (filter (\<lambda>p. p_market_id p = market_id) (positions st)) (u_id u)\<rparr>) (users st)"
    by (rule pay_winners_map [OF d])
  finally have u: "users st' =
      map (\<lambda>u. u\<lparr>u_points := u_points u +
                 (case find_position st (u_id u) market_id of None \<Rightarrow> 0
                  | Some pos \<Rightarrow> winning_count outcome pos)\<rparr>) (users st)"
    by (simp add: credit_unique_position [OF dp nn])
  have t: "amms st' = amms st" "chs st' = chs st" "positions st' = positions st"
    "ledger st' = ledger st"
    by (subst s(3), simp)+
  obtain m where m: "find_market st market_id = Some m" "\<not> m_resolved m"
    using s(2) by blast
  have "find (\<lambda>r. m_id r = market_id)
      (update_first (\<lambda>r. m_id r = market_id)
         (\<lambda>m. m\<lparr>m_resolved := True, m_outcome := Some (outcome = ''yes'')\<rparr>) (markets st))
      = map_option (\<lambda>m. m\<lparr>m_resolved := True, m_outcome := Some (outcome = ''yes'')\<rparr>)
          (find (\<lambda>r. m_id r = market_id) (markets st))"
    by (rule find_update_first_same) simp
  then have "find_market st' market_id =
         Some (m\<lparr>m_resolved := True, m_outcome := Some (outcome = ''yes'')\<rparr>)"
    using m(1) by (subst s(3)) (simp add: find_market_def)
  then show ?thesis using u t m by blast
qed

theorem settlement_pays_winning_counts_witness:
  "schema_ok holders_db \<and>
   settlement holders_db 1 ''yes'' =
     Inr (holders_db
       \<lparr>markets := [\<lparr>m_id = 1, m_name = ''rain'', m_b = 20, m_amm_points = 9997,
                     m_resolved = True, m_outcome = Some True\<rparr>],
        users := [\<lparr>u_id = 1, u_username = ''A'', u_points = 1002\<rparr>,
                  \<lparr>u_id = 2, u_username = ''B'', u_points = 1001\<rparr>,
                  \<lparr>u_id = 3, u_username = ''C'', u_points = 1000\<rparr>]\<rparr>) \<and>
   map u_points (users holders_db) = [997, 998, 1000]"
proof -
  have ok: "schema_ok holders_db"
    by (simp add: schema_ok_def holders_db_def)
  let ?st' = "holders_db
       \<lparr>markets := [\<lparr>m_id = 1, m_name = ''rain'', m_b = 20, m_amm_points = 9997,
                     m_resolved = True, m_outcome = Some True\<rparr>],
        users := pay_winners ''yes''
          (filter (\<lambda>p. p_market_id p = 1) (positions holders_db)) (users holders_db)\<rparr>"
  have s: "settlement holders_db 1 ''yes'' = Inr ?st'"
    by (simp add: settlement_def find_market_def holders_db_def Let_def)
  have "users ?st' = [\<lparr>u_id = 1, u_username = ''A'', u_points = 1002\<rparr>,
                  \<lparr>u_id = 2, u_username = ''B'', u_points = 1001\<rparr>,
                  \<lparr>u_id = 3, u_username = ''C'', u_points = 1000\<rparr>]"
    using settlement_pays_winning_counts [OF s ok]
    by (simp add: holders_db_def find_position_def winning_count_def)
  then have "?st' = holders_db
       \<lparr>markets := [\<lparr>m_id = 1, m_name = ''rain'', m_b = 20, m_amm_points = 9997,
                     m_resolved = True, m_outcome = Some True\<rparr>],
        users := [\<lparr>u_id = 1, u_username = ''A'', u_points = 1002\<rparr>,
                  \<lparr>u_id = 2, u_username = ''B'', u_points = 1001\<rparr>,
                  \<lparr>u_id = 3, u_username = ''C'', u_points = 1000\<rparr>]\<rparr>"
    by simp
  then show ?thesis using s ok by (simp add: holders_db_def)
qed

end
